theory Spec2Isabelle
  imports Complex_Main "HOL-Library.Word" "HOL-Library.Sublist"
begin

section \<open>Strings and JavaScript values\<close>

text \<open>
  A JavaScript string is a sequence of UTF-16 code units; \<open>length\<close>, \<open>substring\<close>,
  \<open>===\<close> and the regular expressions of the program all work on code units. The
  function \<open>js\<close> turns an ASCII literal of the source into its code units.
\<close>

type_synonym jschar = "16 word"
type_synonym jsstring = "jschar list"

definition js :: "string \<Rightarrow> jsstring" where
  "js s = map of_char s"

text \<open>
  The values a parsed JSON body can hold, with \<open>undefined\<close> for what a property read
  yields when the property is missing. A number is a double: \<open>JNum\<close> holds the value
  of a finite one (minus zero counts as zero; nothing the program does tells the two
  apart), and
  \<open>JInfinity positive\<close> is what a literal beyond the range of a double parses to.
  \<open>JSON.parse\<close> never yields \<open>NaN\<close>. An object is the list of its own properties.
\<close>

datatype jsvalue =
    JUndefined
  | JNull
  | JBool bool
  | JNum rat
  | JInfinity bool
  | JStr jsstring
  | JArr "jsvalue list"
  | JObj "(jsstring \<times> jsvalue) list"

text \<open>
  The values that count as false in a condition and for \<open>||\<close>: \<open>undefined\<close>, \<open>null\<close>,
  \<open>false\<close>, zero and the empty string. Arrays and objects count as true.
\<close>

fun falsy :: "jsvalue \<Rightarrow> bool" where
  "falsy JUndefined = True"
| "falsy JNull = True"
| "falsy (JBool b) = (\<not> b)"
| "falsy (JNum n) = (n = 0)"
| "falsy (JStr str) = (str = [])"
| "falsy v = False"

section \<open>Data model\<close>

datatype MessageType = USER | GEMINI | INFO | ERROR

text \<open>
  A history item as the program builds it: \<open>{ type, text }\<close>. The \<open>text\<close> of a model
  reply is whatever \<open>choices[0].message.content\<close> holds, so it is a \<open>jsvalue\<close>; every
  other item carries a string. The id that the history hook derives from
  \<open>Date.now()\<close> is never read by the code modelled here and is left out.
\<close>

record HistoryItem =
  itemType :: MessageType
  itemText :: jsvalue

datatype StreamingState = Idle | Responding

text \<open>
  \<open>ApprovalRequest = { message, onApprove, onDeny }\<close>. The two closures are
  represented by the variables they capture: \<open>proceed\<close> captures \<open>enrichedPrompt\<close> and
  \<open>prompt\<close>, and the \<open>sendQueryToModel\<close> it calls is the callback of the render in
  which the request was made, with that render's \<open>selectedModel\<close> and \<open>history\<close>.
  \<open>onApprove\<close> and \<open>onDeny\<close> below are functions of this record.

  The program declares \<open>selectedModel\<close> as \<open>string | null\<close> and \<open>models\<close> as a list of
  \<open>{ id: string }\<close>, but it stores what the listing response holds without checking
  it, so both are values of any kind here.
\<close>

record ApprovalRequest =
  message :: jsstring
  enrichedPrompt :: jsstring
  prompt :: jsstring
  capturedModel :: jsvalue
  capturedHistory :: "HistoryItem list"

text \<open>The body of the POST: \<open>{ model, messages: [{ role: 'user', content }] }\<close>.\<close>

datatype request =
    GetModels jsstring
  | ChatCompletion jsstring jsvalue jsstring

datatype exit_key = CtrlC | CtrlD

text \<open>
  Handlers read the values of the current render and change state only through
  setters, \<open>addItem\<close>, \<open>fetch\<close>, timers and \<open>handleSlashCommand\<close>. A handler is
  modelled as the list of these effects in program order.
\<close>

datatype effect =
    AddItem HistoryItem
  | SetStreamingState StreamingState
  | SetApprovalRequest "ApprovalRequest option"
  | SetModels jsvalue
  | SetSelectedModel jsvalue
  | SetIsAutopilot bool
  | Fetch request
  | SetPressedOnce exit_key bool
  | SetExitTimeout exit_key nat
  | ClearTimeout nat
  | ResetTimerRef exit_key
  | HandleSlashCommand jsstring

record AppState =
  history :: "HistoryItem list"
  models :: jsvalue
  selectedModel :: jsvalue
  streamingState :: StreamingState
  isAutopilot :: bool
  approvalRequest :: "ApprovalRequest option"
  ctrlCPressedOnce :: bool
  ctrlCTimerRef :: "nat option"
  ctrlDPressedOnce :: bool
  ctrlDTimerRef :: "nat option"
  requests :: "request list"
  slashCommands :: "jsstring list"
  timers :: "(nat \<times> nat \<times> exit_key) list"
  nextTimerId :: nat
  clock :: nat

definition initialState :: AppState where
  "initialState = \<lparr> history = [], models = JArr [], selectedModel = JNull,
     streamingState = Idle, isAutopilot = False, approvalRequest = None,
     ctrlCPressedOnce = False, ctrlCTimerRef = None,
     ctrlDPressedOnce = False, ctrlDTimerRef = None,
     requests = [], slashCommands = [], timers = [], nextTimerId = 0, clock = 0 \<rparr>"

subsection \<open>History store\<close>

text \<open>
  Modelled from the spec: the hook \<open>useHistory\<close> (hooks/useHistoryManager.js) is not
  among the sources. The spec describes the store as an ordered, append-only log in
  insertion order, so \<open>addItem\<close> appends the item at the end.
\<close>

definition addItem :: "HistoryItem \<Rightarrow> HistoryItem list \<Rightarrow> HistoryItem list" where
  "addItem item h = h @ [item]"

section \<open>History deduplicator\<close>








section \<open>Model dispatch client\<close>

text \<open>
  Property reads on a parsed body. Reading a property of \<open>undefined\<close> or \<open>null\<close>
  throws a TypeError (\<open>Inl\<close> with its message); a missing property reads as
  \<open>undefined\<close>. \<open>getProp\<close> is for the names the program reads (\<open>choices\<close>,
  \<open>message\<close>, \<open>content\<close>, \<open>data\<close>, \<open>id\<close>), which no built-in prototype defines, so
  only an object can have them. \<open>getFirst\<close> is the read \<open>[0]\<close>.
\<close>

definition typeError :: "string \<Rightarrow> jsstring \<Rightarrow> jsstring" where
  "typeError what name =
     js ''Cannot read properties of '' @ js what @ js '' (reading '' @ [0x27] @ name @ [0x27] @ js '')''"

fun getProp :: "jsvalue \<Rightarrow> jsstring \<Rightarrow> jsstring + jsvalue" where
  "getProp JUndefined name = Inl (typeError ''undefined'' name)"
| "getProp JNull name = Inl (typeError ''null'' name)"
| "getProp (JObj props) name =
     Inr (case map_of props name of None \<Rightarrow> JUndefined | Some v \<Rightarrow> v)"
| "getProp v name = Inr JUndefined"

fun getFirst :: "jsvalue \<Rightarrow> jsstring + jsvalue" where
  "getFirst JUndefined = Inl (typeError ''undefined'' (js ''0''))"
| "getFirst JNull = Inl (typeError ''null'' (js ''0''))"
| "getFirst (JArr []) = Inr JUndefined"
| "getFirst (JArr (v # vs)) = Inr v"
| "getFirst (JStr []) = Inr JUndefined"
| "getFirst (JStr (c # cs)) = Inr (JStr [c])"
| "getFirst (JObj props) =
     Inr (case map_of props (js ''0'') of None \<Rightarrow> JUndefined | Some v \<Rightarrow> v)"
| "getFirst v = Inr JUndefined"

text \<open>
  What the backend does with the POST, as far as the program can tell:
  \<^item> \<open>FetchRejected m\<close>: \<open>fetch\<close> rejects with message \<open>m\<close> (network error, or the
    abort that the 600000 ms timer triggers);
  \<^item> \<open>HttpNotOk status r\<close>: a response whose \<open>ok\<close> is false; \<open>r\<close> is what
    \<open>apiResponse.text()\<close> gives, \<open>Inl\<close> when reading the body fails;
  \<^item> \<open>HttpOk r\<close>: a response whose \<open>ok\<close> is true; \<open>r\<close> is what
    \<open>apiResponse.json()\<close> gives, \<open>Inl\<close> when the body is not JSON.
\<close>

datatype chat_outcome =
    FetchRejected jsstring
  | HttpNotOk nat "jsstring + jsstring"
  | HttpOk "jsstring + jsvalue"

text \<open>The test \<open>!selectedModel\<close>.\<close>

definition falsyModel :: "jsvalue \<Rightarrow> bool" where
  "falsyModel m = falsy m"

definition lastText :: "HistoryItem list \<Rightarrow> jsvalue" where
  "lastText h = (case rev h of [] \<Rightarrow> JUndefined | item # _ \<Rightarrow> itemText item)"

definition chatUrl :: jsstring where
  "chatUrl = js ''http://127.0.0.1:1234/v1/chat/completions''"

text \<open>
  The \<open>try\<close> block from \<open>await fetch\<close> on: \<open>Inl m\<close> when it throws an error with
  message \<open>m\<close>, \<open>Inr responseText\<close> otherwise. \<open>failurePrefix\<close> is the text that the
  two source files put before the body of a response that is not ok.
\<close>

definition responseTextOf :: "(nat \<Rightarrow> jsstring) \<Rightarrow> chat_outcome \<Rightarrow> jsstring + jsvalue" where
  "responseTextOf failurePrefix outcome =
     (case outcome of
        FetchRejected m \<Rightarrow> Inl m
      | HttpNotOk status (Inl m) \<Rightarrow> Inl m
      | HttpNotOk status (Inr body) \<Rightarrow> Inl (failurePrefix status @ body)
      | HttpOk (Inl m) \<Rightarrow> Inl m
      | HttpOk (Inr responseData) \<Rightarrow>
          (case getProp responseData (js ''choices'') of
             Inl m \<Rightarrow> Inl m
           | Inr choices \<Rightarrow>
               (case getFirst choices of
                  Inl m \<Rightarrow> Inl m
                | Inr choice \<Rightarrow>
                    (case getProp choice (js ''message'') of
                       Inl m \<Rightarrow> Inl m
                     | Inr msg \<Rightarrow> getProp msg (js ''content'')))))"

text \<open>
  \<open>sendQueryToModel\<close> up to the point where it waits for \<open>fetch\<close>. \<open>model\<close> and
  \<open>hist\<close> are \<open>selectedModel\<close> and \<open>history\<close> of the render that created the
  callback.
\<close>

definition noModelSelected :: effect where
  "noModelSelected =
     AddItem \<lparr> itemType = ERROR, itemText = JStr (js ''Error: No local model is selected.'') \<rparr>"

definition sendQueryToModel_start ::
  "jsvalue \<Rightarrow> HistoryItem list \<Rightarrow> jsstring \<Rightarrow> jsstring \<Rightarrow> effect list" where
  "sendQueryToModel_start model hist promptToSend originalPrompt =
     (if falsyModel model then [noModelSelected]
      else
        (if lastText hist \<noteq> JStr originalPrompt
         then [AddItem \<lparr> itemType = USER, itemText = JStr originalPrompt \<rparr>] else [])
        @ [SetStreamingState Responding,
           Fetch (ChatCompletion chatUrl model promptToSend)])"

text \<open>The rest of \<open>sendQueryToModel\<close>, run when the request has settled.\<close>

definition sendQueryToModel_finish :: "chat_outcome \<Rightarrow> effect list" where
  "sendQueryToModel_finish outcome =
     (case responseTextOf (\<lambda>status. js ''API request failed: '') outcome of
        Inr responseText \<Rightarrow> [AddItem \<lparr> itemType = GEMINI, itemText = responseText \<rparr>]
      | Inl m \<Rightarrow>
          [AddItem \<lparr> itemType = ERROR,
                    itemText = JStr (js ''Error connecting to local model: '' @ m) \<rparr>])
     @ [SetStreamingState Idle]"

text \<open>
  A whole call, given how the request will settle. The result is the promise's:
  \<open>Inr\<close> the effects when it resolves, \<open>Inl\<close> an error that escapes the function.
\<close>

definition sendQueryToModel ::
  "jsvalue \<Rightarrow> HistoryItem list \<Rightarrow> jsstring \<Rightarrow> jsstring \<Rightarrow> chat_outcome
     \<Rightarrow> jsstring + effect list" where
  "sendQueryToModel model hist promptToSend originalPrompt outcome =
     (if falsyModel model
      then Inr (sendQueryToModel_start model hist promptToSend originalPrompt)
      else Inr (sendQueryToModel_start model hist promptToSend originalPrompt
                @ sendQueryToModel_finish outcome))"

subsection \<open>The dispatch of App.tsx\<close>

text \<open>
  In src/packages/cli/src/ui/App.tsx the function called \<open>submitQuery\<close> is the
  dispatch itself: no enrichment, no approval, the user item always added, and the
  status code in the failure text.
\<close>

fun decimal :: "nat \<Rightarrow> jsstring" where
  "decimal n = (if n < 10 then [0x30 + of_nat n]
                else decimal (n div 10) @ [0x30 + of_nat (n mod 10)])"

definition chatUrl_tsx :: jsstring where
  "chatUrl_tsx = js ''http://localhost:1234/v1/chat/completions''"

definition submitQuery_tsx_start :: "jsvalue \<Rightarrow> jsstring \<Rightarrow> effect list" where
  "submitQuery_tsx_start model userPrompt =
     (if falsyModel model then
        [AddItem \<lparr> itemType = ERROR,
                  itemText = JStr (js ''Error: No local model is selected or available.'') \<rparr>]
      else
        [AddItem \<lparr> itemType = USER, itemText = JStr userPrompt \<rparr>,
         SetStreamingState Responding,
         Fetch (ChatCompletion chatUrl_tsx model userPrompt)])"

definition submitQuery_tsx_finish :: "chat_outcome \<Rightarrow> effect list" where
  "submitQuery_tsx_finish outcome =
     (case responseTextOf
             (\<lambda>status. js ''Request failed with status '' @ decimal status @ js '': '') outcome of
        Inr responseText \<Rightarrow> [AddItem \<lparr> itemType = GEMINI, itemText = responseText \<rparr>]
      | Inl m \<Rightarrow>
          [AddItem \<lparr> itemType = ERROR,
                    itemText = JStr (js ''Error connecting to local model: '' @ m) \<rparr>])
     @ [SetStreamingState Idle]"

definition submitQuery_tsx ::
  "jsvalue \<Rightarrow> jsstring \<Rightarrow> chat_outcome \<Rightarrow> jsstring + effect list" where
  "submitQuery_tsx model userPrompt outcome =
     (if falsyModel model
      then Inr (submitQuery_tsx_start model userPrompt)
      else Inr (submitQuery_tsx_start model userPrompt @ submitQuery_tsx_finish outcome))"

section \<open>Model listing at startup\<close>

text \<open>
  What the backend does with the GET: \<open>ModelsRejected\<close> is a \<open>fetch\<close> that rejects;
  \<open>ModelsResponse ok body\<close> a response with its \<open>ok\<close> flag and what
  \<open>response.json()\<close> gives, \<open>Inl\<close> when the body is not JSON and otherwise the parsed
  value, of whatever shape.
\<close>

datatype models_response =
    ModelsRejected jsstring
  | ModelsResponse bool "jsstring + jsvalue"

text \<open>
  The read \<open>.length\<close>: the number of elements of an array, the number of code units of
  a string, the own property of that name of an object, \<open>undefined\<close> on a number or a
  boolean, and a TypeError on \<open>undefined\<close> and \<open>null\<close>.
\<close>

fun getLength :: "jsvalue \<Rightarrow> jsstring + jsvalue" where
  "getLength JUndefined = Inl (typeError ''undefined'' (js ''length''))"
| "getLength JNull = Inl (typeError ''null'' (js ''length''))"
| "getLength (JArr vs) = Inr (JNum (of_nat (length vs)))"
| "getLength (JStr str) = Inr (JNum (of_nat (length str)))"
| "getLength (JObj props) =
     Inr (case map_of props (js ''length'') of None \<Rightarrow> JUndefined | Some v \<Rightarrow> v)"
| "getLength v = Inr JUndefined"

text \<open>
  The comparison \<open>v > 0\<close>, which turns \<open>v\<close> into a number: \<open>undefined\<close> becomes
  \<open>NaN\<close> and \<open>null\<close> becomes 0, so both give false; \<open>true\<close> becomes 1 and \<open>false\<close> 0.
  For a string, an array or an object the conversion is the runtime's (the grammar of
  numeric strings, \<open>Array.prototype.toString\<close>, and a TypeError for an object whose own
  \<open>valueOf\<close> and \<open>toString\<close> cannot be called). It is not modelled: \<open>converted\<close> stands
  for what the comparison gives in that case, \<open>Inl\<close> when it throws, and every result
  below holds whatever it is.
\<close>

fun greaterThanZero :: "jsstring + bool \<Rightarrow> jsvalue \<Rightarrow> jsstring + bool" where
  "greaterThanZero converted JUndefined = Inr False"
| "greaterThanZero converted JNull = Inr False"
| "greaterThanZero converted (JBool b) = Inr b"
| "greaterThanZero converted (JNum n) = Inr (n > 0)"
| "greaterThanZero converted (JInfinity positive) = Inr positive"
| "greaterThanZero converted v = converted"

text \<open>
  \<open>fetchModels\<close> once the request has settled. Everything from \<open>await fetch\<close> on is
  inside the \<open>try\<close>, so whatever throws there (the rejected \<open>fetch\<close>, the status check,
  the parsing, a property read on \<open>null\<close> or \<open>undefined\<close>, the comparison) ends in the
  \<open>catch\<close>, which records the error entry; what was set before the throw stays set.
\<close>

definition fetchModels_with :: "jsstring \<Rightarrow> jsstring + bool \<Rightarrow> models_response \<Rightarrow> effect list" where
  "fetchModels_with failureText converted response =
     (let failed = [AddItem \<lparr> itemType = ERROR, itemText = JStr failureText \<rparr>] in
      case response of
        ModelsRejected m \<Rightarrow> failed
      | ModelsResponse ok body \<Rightarrow>
          if \<not> ok then failed
          else
            (case body of
               Inl m \<Rightarrow> failed
             | Inr data \<Rightarrow>
                 (case getProp data (js ''data'') of
                    Inl m \<Rightarrow> failed
                  | Inr listed \<Rightarrow>
                      (let availableModels = (if falsy listed then JArr [] else listed) in
                       SetModels availableModels
                       # (case getLength availableModels of
                            Inl m \<Rightarrow> failed
                          | Inr len \<Rightarrow>
                              (case greaterThanZero converted len of
                                 Inl m \<Rightarrow> failed
                               | Inr False \<Rightarrow> []
                               | Inr True \<Rightarrow>
                                   (case getFirst availableModels of
                                      Inl m \<Rightarrow> failed
                                    | Inr first \<Rightarrow>
                                        (case getProp first (js ''id'') of
                                           Inl m \<Rightarrow> failed
                                         | Inr ident \<Rightarrow> [SetSelectedModel ident]))))))))"

definition couldNotConnect :: jsstring where
  "couldNotConnect =
     js ''Could not connect to LM Studio at http://127.0.0.1:1234. Please ensure the server is running.''"

definition couldNotConnect_tsx :: jsstring where
  "couldNotConnect_tsx =
     js ''Could not connect to LM Studio at http://localhost:1234. Please ensure the server is running.''"

definition fetchModels :: "jsstring + bool \<Rightarrow> models_response \<Rightarrow> effect list" where
  "fetchModels = fetchModels_with couldNotConnect"

definition fetchModels_tsx :: "jsstring + bool \<Rightarrow> models_response \<Rightarrow> effect list" where
  "fetchModels_tsx = fetchModels_with couldNotConnect_tsx"

section \<open>Effects on the state\<close>

text \<open>
  What each effect does to the state. \<open>requests\<close> logs the network requests issued,
  \<open>slashCommands\<close> the commands handed to the external command handler, and
  \<open>timers\<close> holds the timeouts that are set and have neither fired nor been cleared,
  as (handle, due time, key).
\<close>

fun applyEffect :: "effect \<Rightarrow> AppState \<Rightarrow> AppState" where
  "applyEffect (AddItem item) s = s\<lparr> history := addItem item (history s) \<rparr>"
| "applyEffect (SetStreamingState v) s = s\<lparr> streamingState := v \<rparr>"
| "applyEffect (SetApprovalRequest r) s = s\<lparr> approvalRequest := r \<rparr>"
| "applyEffect (SetModels ms) s = s\<lparr> models := ms \<rparr>"
| "applyEffect (SetSelectedModel m) s = s\<lparr> selectedModel := m \<rparr>"
| "applyEffect (SetIsAutopilot b) s = s\<lparr> isAutopilot := b \<rparr>"
| "applyEffect (Fetch r) s = s\<lparr> requests := requests s @ [r] \<rparr>"
| "applyEffect (SetPressedOnce CtrlC b) s = s\<lparr> ctrlCPressedOnce := b \<rparr>"
| "applyEffect (SetPressedOnce CtrlD b) s = s\<lparr> ctrlDPressedOnce := b \<rparr>"
| "applyEffect (SetExitTimeout CtrlC delay) s =
     s\<lparr> timers := timers s @ [(nextTimerId s, clock s + delay, CtrlC)],
        ctrlCTimerRef := Some (nextTimerId s),
        nextTimerId := Suc (nextTimerId s) \<rparr>"
| "applyEffect (SetExitTimeout CtrlD delay) s =
     s\<lparr> timers := timers s @ [(nextTimerId s, clock s + delay, CtrlD)],
        ctrlDTimerRef := Some (nextTimerId s),
        nextTimerId := Suc (nextTimerId s) \<rparr>"
| "applyEffect (ClearTimeout handle) s =
     s\<lparr> timers := filter (\<lambda>t. fst t \<noteq> handle) (timers s) \<rparr>"
| "applyEffect (ResetTimerRef CtrlC) s = s\<lparr> ctrlCTimerRef := None \<rparr>"
| "applyEffect (ResetTimerRef CtrlD) s = s\<lparr> ctrlDTimerRef := None \<rparr>"
| "applyEffect (HandleSlashCommand c) s = s\<lparr> slashCommands := slashCommands s @ [c] \<rparr>"

definition run :: "effect list \<Rightarrow> AppState \<Rightarrow> AppState" where
  "run effects s = foldl (\<lambda>st e. applyEffect e st) s effects"

text \<open>The effect that puts a request into the approval slot.\<close>

fun createsApprovalRequest :: "effect \<Rightarrow> bool" where
  "createsApprovalRequest (SetApprovalRequest (Some r)) = True"
| "createsApprovalRequest e = False"

fun setsStreamingState :: "effect \<Rightarrow> bool" where
  "setsStreamingState (SetStreamingState v) = True"
| "setsStreamingState e = False"

text \<open>The effects of the exit confirmation on its flags, refs and timeouts.\<close>

fun isTimerEffect :: "effect \<Rightarrow> bool" where
  "isTimerEffect (SetPressedOnce k b) = True"
| "isTimerEffect (SetExitTimeout k d) = True"
| "isTimerEffect (ClearTimeout h) = True"
| "isTimerEffect (ResetTimerRef k) = True"
| "isTimerEffect e = False"

section \<open>Context enrichment pipeline\<close>

subsection \<open>The filename pattern\<close>

text \<open>
  \<open>/([\w.-]+\.[\w]+)/g\<close>, of which \<open>prompt.match\<close> gives all matches and the program
  uses the first. \<open>\w\<close> is \<open>[A-Za-z0-9_]\<close>.
\<close>

definition isWordChar :: "jschar \<Rightarrow> bool" where
  "isWordChar c = ((0x30 \<le> c \<and> c \<le> 0x39) \<or> (0x41 \<le> c \<and> c \<le> 0x5A)
                   \<or> c = 0x5F \<or> (0x61 \<le> c \<and> c \<le> 0x7A))"

definition isNameChar :: "jschar \<Rightarrow> bool" where
  "isNameChar c = (isWordChar c \<or> c = 0x2E \<or> c = 0x2D)"

text \<open>
  A match attempt at the start of \<open>s\<close>. \<open>[\w.-]+\<close> first takes the longest run and
  then gives characters back one at a time; with \<open>n\<close> characters taken, the attempt
  succeeds when a dot and a word character follow, and \<open>[\w]+\<close> then takes the
  longest run of word characters.
\<close>

fun backtrack :: "jsstring \<Rightarrow> nat \<Rightarrow> jsstring option" where
  "backtrack s 0 = None"
| "backtrack s (Suc k) =
     (case drop (Suc k) s of
        d # w # _ \<Rightarrow>
          if d = 0x2E \<and> isWordChar w
          then Some (take (Suc (Suc k)) s @ takeWhile isWordChar (drop (Suc (Suc k)) s))
          else backtrack s k
      | _ \<Rightarrow> backtrack s k)"

definition matchAt :: "jsstring \<Rightarrow> jsstring option" where
  "matchAt s = backtrack s (length (takeWhile isNameChar s))"

text \<open>The leftmost match: the attempt is made at each index in turn.\<close>

fun firstMatch :: "jsstring \<Rightarrow> jsstring option" where
  "firstMatch [] = None"
| "firstMatch (c # cs) =
     (case matchAt (c # cs) of Some m \<Rightarrow> Some m | None \<Rightarrow> firstMatch cs)"

subsection \<open>The file system\<close>

text \<open>
  What the three calls into \<open>fs\<close> can see. An entry of a directory is
  \<^item> \<open>NoStat\<close>: \<open>lstatSync\<close> throws for it;
  \<^item> \<open>NonDir c\<close>: not a directory; \<open>c\<close> is what \<open>readFileSync(path, 'utf-8')\<close>
    gives, \<open>None\<close> when that throws;
  \<^item> \<open>Directory l\<close>: a directory; \<open>l\<close> is what \<open>readdirSync\<close> gives, in its order,
    \<open>None\<close> when that throws.
\<close>

datatype fsnode =
    NoStat
  | NonDir "jsstring option"
  | Directory "(jsstring \<times> fsnode) list option"

record Env =
  cwd :: jsstring
  cwdEntries :: "(jsstring \<times> fsnode) list option"

text \<open>
  \<open>path.join\<close> and \<open>path.basename\<close> (POSIX) for a normalised directory path and an
  entry name, as \<open>process.cwd()\<close> and \<open>readdirSync\<close> give them.
\<close>

definition pathJoin :: "jsstring \<Rightarrow> jsstring \<Rightarrow> jsstring" where
  "pathJoin dir name =
     (case rev dir of
        [] \<Rightarrow> name
      | c # _ \<Rightarrow> if c = 0x2F then dir @ name else dir @ [0x2F] @ name)"

definition basename :: "jsstring \<Rightarrow> jsstring" where
  "basename p = rev (takeWhile (\<lambda>c. c \<noteq> 0x2F) (rev p))"

definition ignoreDirs :: "jsstring list" where
  "ignoreDirs = [js ''node_modules'', js ''.git'', js ''dist'', js ''build'']"

text \<open>
  The inner function \<open>search\<close>, as the loop over the entries of \<open>currentPath\<close>. The
  result is \<open>foundPath\<close>; once it is set every loop returns.
\<close>

fun search :: "jsstring \<Rightarrow> jsstring \<Rightarrow> (jsstring \<times> fsnode) list \<Rightarrow> jsstring option" where
  "search flt currentPath [] = None"
| "search flt currentPath ((file, NoStat) # files) = search flt currentPath files"
| "search flt currentPath ((file, NonDir c) # files) =
     (if basename (pathJoin currentPath file) = flt then Some (pathJoin currentPath file)
      else search flt currentPath files)"
| "search flt currentPath ((file, Directory None) # files) =
     (if file \<notin> set ignoreDirs then search flt currentPath files
      else if basename (pathJoin currentPath file) = flt then Some (pathJoin currentPath file)
      else search flt currentPath files)"
| "search flt currentPath ((file, Directory (Some inner)) # files) =
     (if file \<notin> set ignoreDirs then
        (case search flt (pathJoin currentPath file) inner of
           Some foundPath \<Rightarrow> Some foundPath
         | None \<Rightarrow> search flt currentPath files)
      else if basename (pathJoin currentPath file) = flt then Some (pathJoin currentPath file)
      else search flt currentPath files)"

definition findFileRecursive :: "Env \<Rightarrow> jsstring \<Rightarrow> jsstring option" where
  "findFileRecursive env flt =
     (case cwdEntries env of None \<Rightarrow> None | Some files \<Rightarrow> search flt (cwd env) files)"

text \<open>The entry that a path names, and \<open>readFileSync\<close> on it.\<close>

fun entryAt :: "jsstring \<Rightarrow> (jsstring \<times> fsnode) list \<Rightarrow> jsstring \<Rightarrow> fsnode option" where
  "entryAt dir [] p = None"
| "entryAt dir ((file, Directory (Some inner)) # files) p =
     (if pathJoin dir file = p then Some (Directory (Some inner))
      else (case entryAt (pathJoin dir file) inner p of
              Some n \<Rightarrow> Some n
            | None \<Rightarrow> entryAt dir files p))"
| "entryAt dir ((file, node) # files) p =
     (if pathJoin dir file = p then Some node else entryAt dir files p)"

definition readFileSync :: "Env \<Rightarrow> jsstring \<Rightarrow> jsstring option" where
  "readFileSync env p =
     (case cwdEntries env of
        None \<Rightarrow> None
      | Some files \<Rightarrow>
          (case entryAt (cwd env) files p of
             Some (NonDir (Some content)) \<Rightarrow> Some content
           | _ \<Rightarrow> None))"

subsection \<open>String replacement\<close>

text \<open>
  \<open>str.replace(pattern, replacement)\<close> with both arguments strings: the first
  occurrence of the pattern is replaced, and in the replacement text \<open>$$\<close> stands for
  a dollar sign, \<open>$&\<close> for the matched text, \<open>$`\<close> for what precedes the match and
  \<open>$'\<close> for what follows it. With a string pattern there are no groups, so a dollar
  sign before anything else stays as it is.
\<close>

fun indexOf :: "'a list \<Rightarrow> 'a list \<Rightarrow> nat option" where
  "indexOf pat [] = (if pat = [] then Some 0 else None)"
| "indexOf pat (c # cs) =
     (if prefix pat (c # cs) then Some 0 else map_option Suc (indexOf pat cs))"

fun getSubstitution :: "jsstring \<Rightarrow> jsstring \<Rightarrow> jsstring \<Rightarrow> jsstring \<Rightarrow> jsstring" where
  "getSubstitution matched preceding following [] = []"
| "getSubstitution matched preceding following [c] = [c]"
| "getSubstitution matched preceding following (c # d # r) =
     (if c = 0x24 \<and> d = 0x24 then 0x24 # getSubstitution matched preceding following r
      else if c = 0x24 \<and> d = 0x26 then matched @ getSubstitution matched preceding following r
      else if c = 0x24 \<and> d = 0x60 then preceding @ getSubstitution matched preceding following r
      else if c = 0x24 \<and> d = 0x27 then following @ getSubstitution matched preceding following r
      else c # getSubstitution matched preceding following (d # r))"

definition replace :: "jsstring \<Rightarrow> jsstring \<Rightarrow> jsstring \<Rightarrow> jsstring" where
  "replace str pat replacement =
     (case indexOf pat str of
        None \<Rightarrow> str
      | Some i \<Rightarrow>
          take i str
          @ getSubstitution pat (take i str) (drop (i + length pat) str) replacement
          @ drop (i + length pat) str)"

text \<open>
  Whether a replacement text holds one of the four patterns, that is, whether
  \<open>getSubstitution\<close> changes it.
\<close>

fun hasReplacementPattern :: "jsstring \<Rightarrow> bool" where
  "hasReplacementPattern [] = False"
| "hasReplacementPattern [c] = False"
| "hasReplacementPattern (c # d # r) =
     ((c = 0x24 \<and> (d = 0x24 \<or> d = 0x26 \<or> d = 0x60 \<or> d = 0x27))
      \<or> hasReplacementPattern (d # r))"

subsection \<open>The pipeline\<close>

definition MAX_CONTEXT_TOKENS :: int where
  "MAX_CONTEXT_TOKENS = 4096"

definition maxChars :: int where
  "maxChars = MAX_CONTEXT_TOKENS * 4"

definition placeholder :: jsstring where
  "placeholder = js ''{CONTENT}''"

definition templateHead :: "jsstring \<Rightarrow> jsstring \<Rightarrow> jsstring" where
  \<open>templateHead userPrompt fullPath =
     js ''The user wants me to do the following: "'' @ userPrompt
     @ js ''". I have found the relevant file at "'' @ fullPath
     @ js ''", and its content is:\<newline>```\<newline>''\<close>

definition templateTail :: jsstring where
  \<open>templateTail = js ''\<newline>```\<newline>Please proceed.''\<close>

definition baseTemplate :: "jsstring \<Rightarrow> jsstring \<Rightarrow> jsstring" where
  "baseTemplate userPrompt fullPath = templateHead userPrompt fullPath @ placeholder @ templateTail"

definition overhead :: "jsstring \<Rightarrow> jsstring \<Rightarrow> int" where
  "overhead userPrompt fullPath =
     int (length (baseTemplate userPrompt fullPath)) - int (length placeholder)"

definition availableChars :: "jsstring \<Rightarrow> jsstring \<Rightarrow> int" where
  "availableChars userPrompt fullPath = maxChars - overhead userPrompt fullPath"

text \<open>\<open>substring(0, n)\<close>: a negative \<open>n\<close> counts as 0, one beyond the end as the length.\<close>

definition substring0 :: "jsstring \<Rightarrow> int \<Rightarrow> jsstring" where
  "substring0 str n = take (nat n) str"

text \<open>The value of \<open>fileContent\<close> when it is put into the template.\<close>

definition embeddedContent :: "jsstring \<Rightarrow> jsstring \<Rightarrow> jsstring \<Rightarrow> jsstring" where
  "embeddedContent userPrompt fullPath fileContent =
     (if int (length fileContent) > availableChars userPrompt fullPath
      then substring0 fileContent (availableChars userPrompt fullPath)
      else fileContent)"

definition truncationNotice :: "jsstring \<Rightarrow> HistoryItem" where
  \<open>truncationNotice fileName =
     \<lparr> itemType = INFO,
       itemText = JStr ([0x26A0, 0xFE0F] @ js '' Warning: The file "'' @ fileName
                        @ js ''" was truncated.'') \<rparr>\<close>

definition notFoundPrompt :: "jsstring \<Rightarrow> jsstring" where
  \<open>notFoundPrompt fileName =
     js ''The user mentioned "'' @ fileName
     @ js ''", but I could not find it. Inform the user the file was not found.''\<close>

definition autopilotNotice :: "jsstring option \<Rightarrow> jsstring \<Rightarrow> HistoryItem" where
  "autopilotNotice fullPath fileName =
     \<lparr> itemType = INFO,
       itemText = JStr (js ''Autopilot ON. ''
                        @ (case fullPath of
                             Some p \<Rightarrow> js ''Reading file: '' @ p
                           | None \<Rightarrow> js ''Could not find file: '' @ fileName)) \<rparr>"

definition approvalMessage :: "jsstring \<Rightarrow> jsstring" where
  \<open>approvalMessage fileName =
     js ''I need to access the file system to find "'' @ fileName @ js ''". Proceed? (Y/n)''\<close>

text \<open>
  The end of \<open>submitQuery\<close> once \<open>enrichedPrompt\<close> is known: with autopilot the notice
  and \<open>proceed()\<close>, without it the approval request. \<open>s\<close> is the state as the render
  that created the callback saw it.
\<close>

definition gate :: "AppState \<Rightarrow> jsstring \<Rightarrow> jsstring option \<Rightarrow> jsstring \<Rightarrow> jsstring \<Rightarrow> effect list" where
  "gate s fileName fullPath enriched userPrompt =
     (if isAutopilot s then
        AddItem (autopilotNotice fullPath fileName)
        # sendQueryToModel_start (selectedModel s) (history s) enriched userPrompt
      else
        [SetApprovalRequest (Some \<lparr> message = approvalMessage fileName,
                                     enrichedPrompt = enriched,
                                     prompt = userPrompt,
                                     capturedModel = selectedModel s,
                                     capturedHistory = history s \<rparr>)])"

datatype fault = ReadFileFailed jsstring

text \<open>
  \<open>submitQuery\<close> of the enriched implementation. It has no \<open>await\<close>, so it runs to its
  end within the call; \<open>Inl\<close> is the rejection of its promise when \<open>readFileSync\<close>
  throws, which happens before any effect.
\<close>

definition submitQuery :: "Env \<Rightarrow> AppState \<Rightarrow> jsstring \<Rightarrow> fault + effect list" where
  "submitQuery env s userPrompt =
     (case firstMatch userPrompt of
        Some fileName \<Rightarrow>
          (case findFileRecursive env fileName of
             Some fullPath \<Rightarrow>
               (case readFileSync env fullPath of
                  None \<Rightarrow> Inl (ReadFileFailed fullPath)
                | Some fileContent \<Rightarrow>
                    Inr ((if int (length fileContent) > availableChars userPrompt fullPath
                          then [AddItem (truncationNotice fileName)] else [])
                         @ gate s fileName (Some fullPath)
                             (replace (baseTemplate userPrompt fullPath) placeholder
                                (embeddedContent userPrompt fullPath fileContent))
                             userPrompt))
           | None \<Rightarrow> Inr (gate s fileName None (notFoundPrompt fileName) userPrompt))
      | None \<Rightarrow>
          Inr (sendQueryToModel_start (selectedModel s) (history s) userPrompt userPrompt))"

section \<open>Final submit\<close>

text \<open>
  \<open>String.prototype.trim\<close> removes white space and line terminators at both ends:
  the code units below.
\<close>

definition isWhiteSpace :: "jschar \<Rightarrow> bool" where
  "isWhiteSpace c = ((0x09 \<le> c \<and> c \<le> 0x0D) \<or> c = 0x20 \<or> c = 0xA0 \<or> c = 0x1680
                     \<or> (0x2000 \<le> c \<and> c \<le> 0x200A) \<or> c = 0x2028 \<or> c = 0x2029
                     \<or> c = 0x202F \<or> c = 0x205F \<or> c = 0x3000 \<or> c = 0xFEFF)"

definition trim :: "jsstring \<Rightarrow> jsstring" where
  "trim str = rev (dropWhile isWhiteSpace (rev (dropWhile isWhiteSpace str)))"

definition handleFinalSubmit :: "Env \<Rightarrow> AppState \<Rightarrow> jsstring \<Rightarrow> fault + effect list" where
  "handleFinalSubmit env s submittedValue =
     (let trimmedValue = trim submittedValue in
      if length trimmedValue > 0 then submitQuery env s trimmedValue else Inr [])"

text \<open>In App.tsx the trimmed text goes to the dispatch; \<open>Inr []\<close> is a call that does nothing.\<close>

definition handleFinalSubmit_tsx :: "AppState \<Rightarrow> jsstring \<Rightarrow> effect list" where
  "handleFinalSubmit_tsx s submittedValue =
     (let trimmedValue = trim submittedValue in
      if length trimmedValue > 0 then submitQuery_tsx_start (selectedModel s) trimmedValue else [])"

section \<open>Approval gate\<close>

definition onApprove :: "ApprovalRequest \<Rightarrow> effect list" where
  "onApprove r =
     SetApprovalRequest None
     # sendQueryToModel_start (capturedModel r) (capturedHistory r) (enrichedPrompt r) (prompt r)"

definition onDeny :: "ApprovalRequest \<Rightarrow> effect list" where
  "onDeny r =
     [SetApprovalRequest None,
      AddItem \<lparr> itemType = INFO, itemText = JStr (js ''Action cancelled.'') \<rparr>]"

text \<open>The part of ink's \<open>Key\<close> that the handlers read.\<close>

record Key =
  ctrl :: bool
  return :: bool

text \<open>
  \<open>toLowerCase\<close>, given for the letters A to Z. The handlers compare its result with
  \<open>'y'\<close> and \<open>'n'\<close> only, and no other code unit has one of these as its lower case.
\<close>

definition toLowerCase :: "jsstring \<Rightarrow> jsstring" where
  "toLowerCase str = map (\<lambda>c. if 0x41 \<le> c \<and> c \<le> 0x5A then c + 0x20 else c) str"

text \<open>
  The listener \<open>useInput(..., { isActive: !!approvalRequest })\<close>: it runs only while a
  request is pending.
\<close>

definition approvalInput :: "ApprovalRequest option \<Rightarrow> jsstring \<Rightarrow> Key \<Rightarrow> effect list" where
  "approvalInput pending input key =
     (case pending of
        None \<Rightarrow> []
      | Some r \<Rightarrow>
          if return key \<or> toLowerCase input = js ''y'' then onApprove r
          else if toLowerCase input = js ''n'' then onDeny r
          else [])"

section \<open>Exit confirmation\<close>

definition CTRL_EXIT_PROMPT_DURATION_MS :: nat where
  "CTRL_EXIT_PROMPT_DURATION_MS = 1000"

text \<open>
  \<open>handleExit(pressedOnce, setPressedOnce, timerRef)\<close>: the key says which pair of
  state and ref is passed, \<open>timerRefCurrent\<close> is \<open>timerRef.current\<close>. \<open>SetExitTimeout\<close>
  is \<open>timerRef.current = setTimeout(...)\<close>, and \<open>exitTimerCallback\<close> the function the
  timeout runs.
\<close>

definition handleExit :: "bool \<Rightarrow> exit_key \<Rightarrow> nat option \<Rightarrow> effect list" where
  "handleExit pressedOnce k timerRefCurrent =
     (if pressedOnce then
        (case timerRefCurrent of Some handle \<Rightarrow> [ClearTimeout handle] | None \<Rightarrow> [])
        @ [HandleSlashCommand (js ''/quit'')]
      else
        [SetPressedOnce k True, SetExitTimeout k CTRL_EXIT_PROMPT_DURATION_MS])"

definition exitTimerCallback :: "exit_key \<Rightarrow> effect list" where
  "exitTimerCallback k = [SetPressedOnce k False, ResetTimerRef k]"

text \<open>The second \<open>useInput\<close> of the enriched implementation: Ctrl+C and Ctrl+A.\<close>

definition globalInput :: "AppState \<Rightarrow> jsstring \<Rightarrow> Key \<Rightarrow> effect list" where
  "globalInput s input key =
     (if ctrl key \<and> (input = js ''c'' \<or> input = js ''C'')
      then handleExit (ctrlCPressedOnce s) CtrlC (ctrlCTimerRef s)
      else if ctrl key \<and> input = js ''a'' then
        (let newMode = \<not> isAutopilot s in
         [SetIsAutopilot newMode,
          AddItem \<lparr> itemType = INFO,
                    itemText = JStr (js ''Autopilot mode is now ''
                                     @ (if newMode then js ''ON'' else js ''OFF'') @ js ''.'') \<rparr>])
      else [])"

text \<open>
  The \<open>useInput\<close> of App.tsx, for its two exit keys; Ctrl+D counts only when the input
  buffer is empty. Its other branches toggle display flags that are not part of the
  state modelled here.
\<close>

definition globalInput_tsx :: "AppState \<Rightarrow> bool \<Rightarrow> jsstring \<Rightarrow> Key \<Rightarrow> effect list" where
  "globalInput_tsx s bufferEmpty input key =
     (if ctrl key \<and> (input = js ''c'' \<or> input = js ''C'')
      then handleExit (ctrlCPressedOnce s) CtrlC (ctrlCTimerRef s) else [])
     @ (if ctrl key \<and> (input = js ''d'' \<or> input = js ''D'')
        then (if bufferEmpty then handleExit (ctrlDPressedOnce s) CtrlD (ctrlDTimerRef s) else [])
        else [])"

text \<open>
  Time. A timeout whose due time has come runs its callback and leaves the table;
  \<open>advanceTo t\<close> lets the clock reach \<open>t\<close>, running the timeouts that are due by then
  in the order in which they were set.
\<close>

definition fireTimer :: "nat \<times> nat \<times> exit_key \<Rightarrow> AppState \<Rightarrow> AppState" where
  "fireTimer t s =
     run (exitTimerCallback (snd (snd t)))
         (s\<lparr> timers := filter (\<lambda>u. fst u \<noteq> fst t) (timers s) \<rparr>)"

definition advanceTo :: "nat \<Rightarrow> AppState \<Rightarrow> AppState" where
  "advanceTo t s =
     (foldl (\<lambda>st tm. fireTimer tm st) s (filter (\<lambda>tm. fst (snd tm) \<le> t) (timers s)))
       \<lparr> clock := t \<rparr>"

text \<open>An exit key pressed at time \<open>t\<close>, in either implementation.\<close>

definition pressExitKey :: "exit_key \<Rightarrow> AppState \<Rightarrow> effect list" where
  "pressExitKey k s =
     (case k of
        CtrlC \<Rightarrow> handleExit (ctrlCPressedOnce s) CtrlC (ctrlCTimerRef s)
      | CtrlD \<Rightarrow> handleExit (ctrlDPressedOnce s) CtrlD (ctrlDTimerRef s))"

definition signalAt :: "nat \<Rightarrow> exit_key \<Rightarrow> AppState \<Rightarrow> AppState" where
  "signalAt t k s = (let s' = advanceTo t s in run (pressExitKey k s') s')"

definition pressedOnce :: "exit_key \<Rightarrow> AppState \<Rightarrow> bool" where
  "pressedOnce k s = (case k of CtrlC \<Rightarrow> ctrlCPressedOnce s | CtrlD \<Rightarrow> ctrlDPressedOnce s)"

definition timerRef :: "exit_key \<Rightarrow> AppState \<Rightarrow> nat option" where
  "timerRef k s = (case k of CtrlC \<Rightarrow> ctrlCTimerRef s | CtrlD \<Rightarrow> ctrlDTimerRef s)"

text \<open>
  States of one key's debouncer. \<open>awaitingFirst\<close>: not pressed, no timeout of the key
  set, and every handle in the table older than the next one. \<open>armed k h due\<close>:
  pressed once, with the timeout \<open>h\<close>, due at \<open>due\<close>, the last one set.
\<close>

definition noTimerFor :: "exit_key \<Rightarrow> AppState \<Rightarrow> bool" where
  "noTimerFor k s = list_all (\<lambda>tm. snd (snd tm) \<noteq> k) (timers s)"

definition awaitingFirst :: "exit_key \<Rightarrow> AppState \<Rightarrow> bool" where
  "awaitingFirst k s =
     (\<not> pressedOnce k s \<and> noTimerFor k s
      \<and> list_all (\<lambda>tm. fst tm < nextTimerId s) (timers s))"

definition armed :: "exit_key \<Rightarrow> nat \<Rightarrow> nat \<Rightarrow> AppState \<Rightarrow> bool" where
  "armed k h due s =
     (pressedOnce k s \<and> timerRef k s = Some h \<and> nextTimerId s = Suc h
      \<and> (\<exists>others. timers s = others @ [(h, due, k)]
            \<and> list_all (\<lambda>tm. snd (snd tm) \<noteq> k \<and> fst tm < h) others))"

text \<open>
  The table of timeouts is well formed when every timeout in it has a handle older than
  the next one and belongs to a key that is pressed once, and no two have the same
  handle or the same key.
\<close>

definition timersWellFormed :: "AppState \<Rightarrow> bool" where
  "timersWellFormed s =
     (list_all (\<lambda>tm. fst tm < nextTimerId s \<and> pressedOnce (snd (snd tm)) s) (timers s)
      \<and> distinct (map fst (timers s))
      \<and> distinct (map (\<lambda>tm. snd (snd tm)) (timers s)))"

section \<open>Events of the session\<close>

text \<open>
  \<open>isInputActive\<close> decides whether \<open>InputPrompt\<close> is rendered, and only a rendered
  \<open>InputPrompt\<close> can call \<open>onSubmit\<close>. A key press goes to both \<open>useInput\<close> listeners,
  in the order in which they are registered. The settling of the listing request
  comes with its response and with \<open>converted\<close>, what the comparison in \<open>fetchModels\<close>
  gives if the runtime has to convert (see \<open>greaterThanZero\<close>).
\<close>

definition isInputActive :: "AppState \<Rightarrow> bool" where
  "isInputActive s = (streamingState s = Idle \<and> approvalRequest s = None)"

datatype event =
    Submit jsstring
  | KeyPress jsstring Key
  | ModelsSettled "jsstring + bool" models_response
  | ChatSettled chat_outcome

definition handleEvent :: "Env \<Rightarrow> AppState \<Rightarrow> event \<Rightarrow> fault + effect list" where
  "handleEvent env s e =
     (case e of
        Submit submittedValue \<Rightarrow>
          if isInputActive s then handleFinalSubmit env s submittedValue else Inr []
      | KeyPress input key \<Rightarrow>
          Inr (approvalInput (approvalRequest s) input key @ globalInput s input key)
      | ModelsSettled converted response \<Rightarrow> Inr (fetchModels converted response)
      | ChatSettled outcome \<Rightarrow> Inr (sendQueryToModel_finish outcome))"

definition step :: "Env \<Rightarrow> event \<Rightarrow> AppState \<Rightarrow> AppState" where
  "step env e s = (case handleEvent env s e of Inl f \<Rightarrow> s | Inr effects \<Rightarrow> run effects s)"

text \<open>
  The states a session can be in: it starts in the initial state, and then events are
  handled, with any contents of the file system at each event, exit keys are pressed
  (Ctrl+D counts in App.tsx only) and time passes. What is drawn on the screen is not
  modelled; a session that ends early, because a render throws on a selected model
  that cannot be drawn as text, reaches fewer states than these.
\<close>

inductive reachable :: "AppState \<Rightarrow> bool" where
  initial: "reachable initialState"
| event: "reachable s \<Longrightarrow> reachable (step env e s)"
| exitKey: "reachable s \<Longrightarrow> reachable (run (pressExitKey k s) s)"
| time: "reachable s \<Longrightarrow> reachable (advanceTo t s)"

section \<open>Running effects\<close>

lemma run_Nil: "run [] s = s"
  by (simp add: run_def)

lemma run_Cons: "run (e # es) s = run es (applyEffect e s)"
  by (simp add: run_def)

lemma run_append: "run (es @ fs) s = run fs (run es s)"
  by (simp add: run_def)


lemma length_js: "length (js s) = length s"
  by (simp add: js_def)

section \<open>Properties of the history deduplicator\<close>




section \<open>Properties of the dispatch client\<close>

lemma streamingState_run_finish:
  "streamingState (run (sendQueryToModel_finish outcome) s) = Idle"
  "streamingState (run (submitQuery_tsx_finish outcome) s) = Idle"
  by (simp_all add: sendQueryToModel_finish_def submitQuery_tsx_finish_def
        run_append run_Cons run_Nil)

text \<open>
  C8. A dispatch while no model is selected (\<open>selectedModel\<close> is \<open>null\<close>, empty, or
  any other value that counts as false) fails fast, in both implementations: the call resolves with one effect only, the error
  entry. So the history grows by exactly that entry and nothing else in the state
  changes: no request is issued, no user entry is added, and the streaming state is
  not touched.
\<close>

theorem dispatch_without_model:
  assumes "falsyModel model"
  shows "sendQueryToModel model hist promptToSend originalPrompt outcome
           = Inr [AddItem \<lparr> itemType = ERROR,
                            itemText = JStr (js ''Error: No local model is selected.'') \<rparr>]
       \<and> sendQueryToModel_start model hist promptToSend originalPrompt
           = [AddItem \<lparr> itemType = ERROR,
                        itemText = JStr (js ''Error: No local model is selected.'') \<rparr>]
       \<and> run (sendQueryToModel_start model hist promptToSend originalPrompt) s
           = s\<lparr> history := history s
                  @ [\<lparr> itemType = ERROR,
                       itemText = JStr (js ''Error: No local model is selected.'') \<rparr>] \<rparr>
       \<and> submitQuery_tsx model promptToSend outcome
           = Inr [AddItem \<lparr> itemType = ERROR,
                            itemText = JStr (js ''Error: No local model is selected or available.'') \<rparr>]
       \<and> run (submitQuery_tsx_start model promptToSend) s
           = s\<lparr> history := history s
                  @ [\<lparr> itemType = ERROR,
                       itemText = JStr (js ''Error: No local model is selected or available.'') \<rparr>] \<rparr>"
  using assms
  by (simp add: sendQueryToModel_def sendQueryToModel_start_def
        noModelSelected_def submitQuery_tsx_def submitQuery_tsx_start_def
        run_Nil run_Cons addItem_def)

text \<open>
  Witness for C8: with \<open>selectedModel\<close> \<open>null\<close>, and with it empty, on the initial state.
\<close>

theorem dispatch_without_model_witness:
  "falsyModel JNull \<and> falsyModel (JStr [])
   \<and> sendQueryToModel JNull [] (js ''hi'') (js ''hi'') (FetchRejected (js ''x''))
       = Inr [AddItem \<lparr> itemType = ERROR,
                        itemText = JStr (js ''Error: No local model is selected.'') \<rparr>]
   \<and> history (run (sendQueryToModel_start (JStr []) [] (js ''hi'') (js ''hi'')) initialState)
       = [\<lparr> itemType = ERROR, itemText = JStr (js ''Error: No local model is selected.'') \<rparr>]
   \<and> requests (run (sendQueryToModel_start (JStr []) [] (js ''hi'') (js ''hi'')) initialState) = []
   \<and> streamingState (run (sendQueryToModel_start (JStr []) [] (js ''hi'') (js ''hi'')) initialState)
       = Idle"
proof -
  have a: "falsyModel JNull" and b: "falsyModel (JStr [])"
    by (simp_all add: falsyModel_def)
  show ?thesis
    using a b
      dispatch_without_model [OF a, of "[]" "js ''hi''" "js ''hi''" "FetchRejected (js ''x'')"
        initialState]
      dispatch_without_model [OF b, of "[]" "js ''hi''" "js ''hi''" "FetchRejected (js ''x'')"
        initialState]
    by (simp add: initialState_def run_Cons run_Nil addItem_def)
qed

section \<open>Properties of the model listing\<close>

text \<open>
  Counterexample to C9 as stated: a successful response whose body is the empty object
  \<open>{}\<close>, which has no list field. The call sets an empty model list and nothing else;
  no error entry is recorded, and the state stays the initial one.
\<close>

theorem absent_list_records_no_error:
  "fetchModels (Inr False) (ModelsResponse True (Inr (JObj []))) = [SetModels (JArr [])]
   \<and> fetchModels_tsx (Inr False) (ModelsResponse True (Inr (JObj []))) = [SetModels (JArr [])]
   \<and> history (run (fetchModels (Inr False) (ModelsResponse True (Inr (JObj [])))) initialState) = []
   \<and> run (fetchModels (Inr False) (ModelsResponse True (Inr (JObj [])))) initialState = initialState"
  by (simp add: fetchModels_def fetchModels_tsx_def fetchModels_with_def run_Cons run_Nil
        initialState_def js_def)

text \<open>
  C9, amended. When the listing call fails (\<open>fetch\<close> rejects, the status is not a
  success, or the body is not JSON), and also when the body is JSON \<open>null\<close>, on which
  the read of the list field throws, the only effect is the error entry: the history
  grows by it, no models become available and none is selected. When the call succeeds
  and the body is any other JSON value without the list field, the only effect is to
  set the empty model list: no models become available, none is selected, and no error
  entry is recorded. All of this holds in both implementations.
\<close>

theorem listing_failure_or_absent:
  "fetchModels converted (ModelsRejected m)
     = [AddItem \<lparr> itemType = ERROR, itemText = JStr couldNotConnect \<rparr>]
   \<and> fetchModels converted (ModelsResponse False body)
     = [AddItem \<lparr> itemType = ERROR, itemText = JStr couldNotConnect \<rparr>]
   \<and> fetchModels converted (ModelsResponse True (Inl m))
     = [AddItem \<lparr> itemType = ERROR, itemText = JStr couldNotConnect \<rparr>]
   \<and> fetchModels converted (ModelsResponse True (Inr JNull))
     = [AddItem \<lparr> itemType = ERROR, itemText = JStr couldNotConnect \<rparr>]
   \<and> fetchModels_tsx converted (ModelsRejected m)
     = [AddItem \<lparr> itemType = ERROR, itemText = JStr couldNotConnect_tsx \<rparr>]
   \<and> fetchModels_tsx converted (ModelsResponse False body)
     = [AddItem \<lparr> itemType = ERROR, itemText = JStr couldNotConnect_tsx \<rparr>]
   \<and> fetchModels_tsx converted (ModelsResponse True (Inl m))
     = [AddItem \<lparr> itemType = ERROR, itemText = JStr couldNotConnect_tsx \<rparr>]
   \<and> fetchModels_tsx converted (ModelsResponse True (Inr JNull))
     = [AddItem \<lparr> itemType = ERROR, itemText = JStr couldNotConnect_tsx \<rparr>]
   \<and> run [AddItem \<lparr> itemType = ERROR, itemText = JStr t \<rparr>] s
     = s\<lparr> history := history s @ [\<lparr> itemType = ERROR, itemText = JStr t \<rparr>] \<rparr>
   \<and> models (run [AddItem \<lparr> itemType = ERROR, itemText = JStr t \<rparr>] initialState) = JArr []
   \<and> selectedModel (run [AddItem \<lparr> itemType = ERROR, itemText = JStr t \<rparr>] initialState)
     = JNull
   \<and> (getProp parsed (js ''data'') = Inr JUndefined
        \<longrightarrow> fetchModels converted (ModelsResponse True (Inr parsed)) = [SetModels (JArr [])]
          \<and> fetchModels_tsx converted (ModelsResponse True (Inr parsed)) = [SetModels (JArr [])])
   \<and> run [SetModels (JArr [])] s = s\<lparr> models := JArr [] \<rparr>
   \<and> run [SetModels (JArr [])] initialState = initialState"
  by (simp add: fetchModels_def fetchModels_tsx_def fetchModels_with_def run_Cons run_Nil
        initialState_def addItem_def)

text \<open>
  Witness for C9: the bodies \<open>{}\<close>, \<open>{"object": "list"}\<close> and \<open>[{"id": "m"}]\<close> (a
  bare list, not a list field) have no list field, and each gives the empty model list.
\<close>

theorem listing_failure_or_absent_witness:
  "getProp (JObj []) (js ''data'') = Inr JUndefined
   \<and> fetchModels (Inr True) (ModelsResponse True (Inr (JObj []))) = [SetModels (JArr [])]
   \<and> getProp (JObj [(js ''object'', JStr (js ''list''))]) (js ''data'') = Inr JUndefined
   \<and> fetchModels_tsx (Inl (js ''unused''))
        (ModelsResponse True (Inr (JObj [(js ''object'', JStr (js ''list''))])))
       = [SetModels (JArr [])]
   \<and> getProp (JArr [JObj [(js ''id'', JStr (js ''m''))]]) (js ''data'') = Inr JUndefined
   \<and> fetchModels (Inr True)
        (ModelsResponse True (Inr (JArr [JObj [(js ''id'', JStr (js ''m''))]])))
       = [SetModels (JArr [])]"
proof -
  have a: "getProp (JObj []) (js ''data'') = Inr JUndefined"
    and b: "getProp (JObj [(js ''object'', JStr (js ''list''))]) (js ''data'') = Inr JUndefined"
    and c: "getProp (JArr [JObj [(js ''id'', JStr (js ''m''))]]) (js ''data'') = Inr JUndefined"
    by (simp_all add: js_def)
  show ?thesis
    using a b c
      listing_failure_or_absent [where parsed = "JObj []" and converted = "Inr True"]
      listing_failure_or_absent [where parsed = "JObj [(js ''object'', JStr (js ''list''))]"
        and converted = "Inl (js ''unused'')"]
      listing_failure_or_absent [where parsed = "JArr [JObj [(js ''id'', JStr (js ''m''))]]"
        and converted = "Inr True"]
    by simp
qed

text \<open>
  A list field that holds a list: the models are set, and the \<open>id\<close> of the first entry
  is selected, whatever it is. On a first entry \<open>null\<close> the read of \<open>id\<close> throws after
  the models are set, and the error entry follows.
\<close>

lemma listing_with_entries:
  "fetchModels converted
     (ModelsResponse True (Inr (JObj [(js ''data'', JArr [JObj [(js ''id'', JStr (js ''m''))]])])))
     = [SetModels (JArr [JObj [(js ''id'', JStr (js ''m''))]]), SetSelectedModel (JStr (js ''m''))]"
  "fetchModels converted (ModelsResponse True (Inr (JObj [(js ''data'', JArr [JObj []])])))
     = [SetModels (JArr [JObj []]), SetSelectedModel JUndefined]"
  "fetchModels converted (ModelsResponse True (Inr (JObj [(js ''data'', JArr [JNull])])))
     = [SetModels (JArr [JNull]),
        AddItem \<lparr> itemType = ERROR, itemText = JStr couldNotConnect \<rparr>]"
  "fetchModels converted (ModelsResponse True (Inr (JObj [(js ''data'', JArr [])])))
     = [SetModels (JArr [])]"
  by (simp_all add: fetchModels_def fetchModels_with_def js_def)

section \<open>Properties of the final submit\<close>

lemma dropWhile_all: "list_all P xs \<Longrightarrow> dropWhile P xs = []"
  by (induction xs) simp_all

lemma trim_empty_iff: "trim v = [] \<longleftrightarrow> list_all isWhiteSpace v"
proof
  assume "list_all isWhiteSpace v"
  then show "trim v = []"
    by (simp add: trim_def dropWhile_all)
next
  assume "trim v = []"
  then have "dropWhile isWhiteSpace (rev (dropWhile isWhiteSpace v)) = []"
    by (simp add: trim_def)
  then have a: "\<forall>x\<in>set (dropWhile isWhiteSpace v). isWhiteSpace x"
    by (simp add: dropWhile_eq_Nil_conv)
  have "dropWhile isWhiteSpace v = []"
  proof (cases "dropWhile isWhiteSpace v")
    case Nil
    then show ?thesis .
  next
    case (Cons x xs)
    then have "\<not> isWhiteSpace x"
      by (metis hd_dropWhile list.sel(1) list.distinct(1))
    with a Cons show ?thesis by simp
  qed
  then show "list_all isWhiteSpace v"
    by (simp add: dropWhile_eq_Nil_conv list_all_iff)
qed

lemma last_dropWhile: "dropWhile P xs \<noteq> [] \<Longrightarrow> last (dropWhile P xs) = last xs"
  by (induction xs) (auto split: if_splits)

lemma trim_ends:
  assumes "trim v \<noteq> []"
  shows "\<not> isWhiteSpace (hd (trim v)) \<and> \<not> isWhiteSpace (last (trim v))"
proof -
  let ?d = "dropWhile isWhiteSpace v"
  let ?e = "dropWhile isWhiteSpace (rev ?d)"
  from assms have e: "?e \<noteq> []" by (simp add: trim_def)
  have d: "?d \<noteq> []"
  proof
    assume "?d = []"
    then have "?e = []" by (simp only: rev.simps dropWhile.simps)
    with e show False by simp
  qed
  have first: "\<not> isWhiteSpace (hd ?d)" using d by (rule hd_dropWhile)
  have "last ?e = last (rev ?d)" using e by (rule last_dropWhile)
  also have "\<dots> = hd ?d" using d by (simp add: last_rev)
  finally have front: "\<not> isWhiteSpace (last ?e)" using first by simp
  have rear: "\<not> isWhiteSpace (hd ?e)" using e by (rule hd_dropWhile)
  have "hd (trim v) = last ?e" and "last (trim v) = hd ?e"
    using e by (simp_all add: trim_def hd_rev last_rev)
  with front rear show ?thesis by simp
qed

text \<open>
  C10. A submitted value that is empty or all white space makes the final-submit
  handler do nothing, in both implementations: no effect at all, so no request, no
  approval request, and the state (history included) is unchanged. Any other value
  goes to the query pipeline as its trimmed text, which is not empty and has no white
  space at either end.
\<close>

theorem blank_submit_does_nothing:
  "(if list_all isWhiteSpace submittedValue
    then handleFinalSubmit env s submittedValue = Inr []
       \<and> handleEvent env s (Submit submittedValue) = Inr []
       \<and> step env (Submit submittedValue) s = s
       \<and> handleFinalSubmit_tsx s submittedValue = []
    else handleFinalSubmit env s submittedValue = submitQuery env s (trim submittedValue)
       \<and> handleFinalSubmit_tsx s submittedValue
           = submitQuery_tsx_start (selectedModel s) (trim submittedValue)
       \<and> trim submittedValue \<noteq> []
       \<and> \<not> isWhiteSpace (hd (trim submittedValue))
       \<and> \<not> isWhiteSpace (last (trim submittedValue)))"
proof (cases "list_all isWhiteSpace submittedValue")
  case True
  then show ?thesis
    by (simp add: handleFinalSubmit_def handleFinalSubmit_tsx_def handleEvent_def step_def
          trim_empty_iff Let_def run_Nil)
next
  case False
  then have ne: "trim submittedValue \<noteq> []"
    by (simp add: trim_empty_iff)
  from trim_ends [OF ne] ne False show ?thesis
    by (simp add: handleFinalSubmit_def handleFinalSubmit_tsx_def Let_def)
qed

text \<open>
  Witness for C10: a value of blanks, a tab and a no-break space does nothing, and
  \<open>" hi "\<close> is passed on as \<open>"hi"\<close>.
\<close>

theorem blank_submit_does_nothing_witness:
  "list_all isWhiteSpace (js ''  '' @ [0x09, 0xA0])
   \<and> handleFinalSubmit \<lparr> cwd = js ''/w'', cwdEntries = Some [] \<rparr> initialState
        (js ''  '' @ [0x09, 0xA0]) = Inr []
   \<and> step \<lparr> cwd = js ''/w'', cwdEntries = Some [] \<rparr> (Submit (js ''  '' @ [0x09, 0xA0]))
        initialState = initialState
   \<and> \<not> list_all isWhiteSpace (js '' hi '')
   \<and> trim (js '' hi '') = js ''hi''
   \<and> handleFinalSubmit \<lparr> cwd = js ''/w'', cwdEntries = Some [] \<rparr> initialState (js '' hi '')
       = submitQuery \<lparr> cwd = js ''/w'', cwdEntries = Some [] \<rparr> initialState (js ''hi'')"
proof -
  have a: "list_all isWhiteSpace (js ''  '' @ [0x09, 0xA0])"
    and b: "\<not> list_all isWhiteSpace (js '' hi '')"
    and c: "trim (js '' hi '') = js ''hi''"
    by (simp_all add: js_def isWhiteSpace_def trim_def)
  show ?thesis
    using a b c
      blank_submit_does_nothing [of "js ''  '' @ [0x09, 0xA0]"
        "\<lparr> cwd = js ''/w'', cwdEntries = Some [] \<rparr>" initialState]
      blank_submit_does_nothing [of "js '' hi ''"
        "\<lparr> cwd = js ''/w'', cwdEntries = Some [] \<rparr>" initialState]
    by simp
qed

section \<open>Properties of the enrichment pipeline\<close>

lemma start_creates_no_request:
  "\<not> list_ex createsApprovalRequest (sendQueryToModel_start model hist p q)"
  by (simp add: sendQueryToModel_start_def noModelSelected_def)

lemma firstMatch_read_a_txt: "firstMatch (js ''read a.txt'') = Some (js ''a.txt'')"
  by (simp add: js_def matchAt_def isNameChar_def isWordChar_def)

text \<open>
  Counterexample to C4 as stated: the prompt \<open>read a.txt\<close> in an empty working
  directory, with autopilot off. The search finds nothing, and the pipeline's only
  effect is to create an approval request; nothing is dispatched.
\<close>

theorem not_found_autopilot_off_asks_approval:
  "firstMatch (js ''read a.txt'') = Some (js ''a.txt'')
   \<and> findFileRecursive \<lparr> cwd = js ''/w'', cwdEntries = Some [] \<rparr> (js ''a.txt'') = None
   \<and> \<not> isAutopilot initialState
   \<and> submitQuery \<lparr> cwd = js ''/w'', cwdEntries = Some [] \<rparr> initialState (js ''read a.txt'')
       = Inr [SetApprovalRequest (Some \<lparr> message = approvalMessage (js ''a.txt''),
                 enrichedPrompt = notFoundPrompt (js ''a.txt''),
                 prompt = js ''read a.txt'',
                 capturedModel = JNull, capturedHistory = [] \<rparr>)]
   \<and> approvalRequest (step \<lparr> cwd = js ''/w'', cwdEntries = Some [] \<rparr>
                           (Submit (js ''read a.txt'')) initialState) \<noteq> None
   \<and> requests (step \<lparr> cwd = js ''/w'', cwdEntries = Some [] \<rparr>
                    (Submit (js ''read a.txt'')) initialState) = []"
  by (simp add: firstMatch_read_a_txt submitQuery_def findFileRecursive_def gate_def
        initialState_def step_def handleEvent_def handleFinalSubmit_def isInputActive_def
        run_Cons run_Nil trim_def js_def isWhiteSpace_def matchAt_def isNameChar_def
        isWordChar_def)

text \<open>
  C4, amended. When the prompt has a filename token and the search finds no file, the
  pipeline builds the file-not-found prompt and takes it through the same gate as a
  found file. With autopilot on it records the autopilot notice and dispatches at
  once, creating no approval request. With autopilot off its only effect is to create
  an approval request, and approving that request dispatches the file-not-found
  prompt.
\<close>

theorem not_found_goes_through_gate:
  assumes "firstMatch userPrompt = Some fileName"
      and "findFileRecursive env fileName = None"
  shows "submitQuery env s userPrompt
           = Inr (if isAutopilot s
                  then AddItem (autopilotNotice None fileName)
                       # sendQueryToModel_start (selectedModel s) (history s)
                           (notFoundPrompt fileName) userPrompt
                  else [SetApprovalRequest (Some \<lparr> message = approvalMessage fileName,
                          enrichedPrompt = notFoundPrompt fileName,
                          prompt = userPrompt,
                          capturedModel = selectedModel s,
                          capturedHistory = history s \<rparr>)])
       \<and> \<not> list_ex createsApprovalRequest
             (AddItem (autopilotNotice None fileName)
              # sendQueryToModel_start (selectedModel s) (history s)
                  (notFoundPrompt fileName) userPrompt)
       \<and> onApprove \<lparr> message = approvalMessage fileName,
                      enrichedPrompt = notFoundPrompt fileName,
                      prompt = userPrompt,
                      capturedModel = selectedModel s,
                      capturedHistory = history s \<rparr>
           = SetApprovalRequest None
             # sendQueryToModel_start (selectedModel s) (history s)
                 (notFoundPrompt fileName) userPrompt"
  using assms
  by (simp add: submitQuery_def gate_def onApprove_def start_creates_no_request)

text \<open>
  Witness for C4: the prompt \<open>read a.txt\<close> in an empty working directory, with
  autopilot on and a model selected, and with autopilot off.
\<close>

theorem not_found_goes_through_gate_witness:
  "firstMatch (js ''read a.txt'') = Some (js ''a.txt'')
   \<and> findFileRecursive \<lparr> cwd = js ''/w'', cwdEntries = Some [] \<rparr> (js ''a.txt'') = None
   \<and> submitQuery \<lparr> cwd = js ''/w'', cwdEntries = Some [] \<rparr>
         (initialState\<lparr> isAutopilot := True, selectedModel := JStr (js ''m'') \<rparr>)
         (js ''read a.txt'')
       = Inr [AddItem (autopilotNotice None (js ''a.txt'')),
              AddItem \<lparr> itemType = USER, itemText = JStr (js ''read a.txt'') \<rparr>,
              SetStreamingState Responding,
              Fetch (ChatCompletion chatUrl (JStr (js ''m'')) (notFoundPrompt (js ''a.txt'')))]
   \<and> submitQuery \<lparr> cwd = js ''/w'', cwdEntries = Some [] \<rparr> initialState (js ''read a.txt'')
       = Inr [SetApprovalRequest (Some \<lparr> message = approvalMessage (js ''a.txt''),
                 enrichedPrompt = notFoundPrompt (js ''a.txt''),
                 prompt = js ''read a.txt'',
                 capturedModel = JNull, capturedHistory = [] \<rparr>)]"
proof -
  have a: "firstMatch (js ''read a.txt'') = Some (js ''a.txt'')"
    by (rule firstMatch_read_a_txt)
  have b: "findFileRecursive \<lparr> cwd = js ''/w'', cwdEntries = Some [] \<rparr> (js ''a.txt'') = None"
    by (simp add: findFileRecursive_def)
  have m: "js ''m'' \<noteq> []"
    by (simp add: js_def)
  show ?thesis
    using a b m
      not_found_goes_through_gate [OF a b,
        of "initialState\<lparr> isAutopilot := True, selectedModel := JStr (js ''m'') \<rparr>"]
      not_found_goes_through_gate [OF a b, of initialState]
    by (simp add: initialState_def sendQueryToModel_start_def lastText_def falsyModel_def)
qed

subsection \<open>The character budget\<close>

text \<open>
  \<open>replace\<close> finds the first occurrence of the pattern; a replacement text without
  any of the four patterns is put in as it is; and the first \<open>{CONTENT}\<close> of the
  template is its slot unless the prompt or the path holds \<open>{CONTENT}\<close> itself.
\<close>

lemma getSubstitution_literal:
  "\<not> hasReplacementPattern r \<Longrightarrow> getSubstitution m b a r = r"
  by (induction m b a r rule: getSubstitution.induct) auto

lemma indexOf_found:
  "indexOf pat (xs @ pat @ ys) \<noteq> None"
proof (induction xs)
  case Nil
  show ?case
  proof (cases "pat @ ys")
    case Nil
    then show ?thesis by simp
  next
    case (Cons a l)
    have "prefix pat (pat @ ys)" by simp
    then have "prefix pat (a # l)" by (simp only: Cons)
    then show ?thesis by (simp add: Cons)
  qed
next
  case (Cons x xs)
  then show ?case by auto
qed

lemma indexOf_split:
  "indexOf pat str = Some i \<Longrightarrow> str = take i str @ pat @ drop (i + length pat) str"
proof (induction str arbitrary: i)
  case Nil
  then show ?case by (simp split: if_splits)
next
  case (Cons c cs)
  show ?case
  proof (cases "prefix pat (c # cs)")
    case True
    with Cons.prems have "i = 0" by simp
    with True show ?thesis by (auto simp: prefix_def)
  next
    case False
    with Cons.prems obtain j where j: "indexOf pat cs = Some j" and i: "i = Suc j"
      by auto
    from Cons.IH [OF j] show ?thesis by (simp add: i)
  qed
qed

lemma indexOf_le: "indexOf pat str = Some i \<Longrightarrow> i + length pat \<le> length str"
proof (induction str arbitrary: i)
  case Nil
  then show ?case by (simp split: if_splits)
next
  case (Cons c cs)
  show ?case
  proof (cases "prefix pat (c # cs)")
    case True
    with Cons.prems have "i = 0" by simp
    with prefix_length_le [OF True] show ?thesis by simp
  next
    case False
    with Cons.prems obtain j where j: "indexOf pat cs = Some j" and i: "i = Suc j"
      by auto
    from Cons.IH [OF j] show ?thesis by (simp add: i)
  qed
qed

lemma replace_first:
  assumes "str = h @ pat @ t"
  shows "\<exists>pre post. str = pre @ pat @ post \<and> indexOf pat str = Some (length pre)
           \<and> replace str pat c = pre @ getSubstitution pat pre post c @ post"
proof -
  from indexOf_found [of pat h t] assms obtain i where i: "indexOf pat str = Some i"
    by auto
  let ?pre = "take i str" and ?post = "drop (i + length pat) str"
  from indexOf_split [OF i] have s: "str = ?pre @ pat @ ?post" .
  from indexOf_le [OF i] have l: "length ?pre = i" by simp
  have "replace str pat c = ?pre @ getSubstitution pat ?pre ?post c @ ?post"
    by (simp add: replace_def i)
  with s l i show ?thesis by metis
qed

lemma indexOf_skip_free:
  "c \<notin> set xs \<Longrightarrow> indexOf (c # pat) ys = Some i \<Longrightarrow>
   indexOf (c # pat) (xs @ ys) = Some (length xs + i)"
  by (induction xs) auto

lemma indexOf_skip_nosub:
  assumes "\<not> sublist pat xs" and "q \<notin> set pat" and "indexOf pat (q # ys) = Some i"
  shows "indexOf pat (xs @ q # ys) = Some (length xs + i)"
  using assms(1)
proof (induction xs)
  case Nil
  from assms(3) show ?case by (simp only: append_Nil list.size add_0)
next
  case (Cons x xs)
  have np: "\<not> prefix pat (x # xs @ q # ys)"
  proof
    assume "prefix pat (x # xs @ q # ys)"
    then have "prefix pat ((x # xs) @ q # ys)" by simp
    then consider "prefix pat (x # xs)" | us where "pat = (x # xs) @ us" "prefix us (q # ys)"
      unfolding prefix_append by blast
    then show False
    proof cases
      case 1
      then have "sublist pat (x # xs)" by (rule prefix_imp_sublist)
      with Cons.prems show False by simp
    next
      case 2
      show False
      proof (cases us)
        case Nil
        with 2(1) Cons.prems show False by simp
      next
        case (Cons u us')
        with 2(2) have "u = q" by simp
        with 2(1) Cons assms(2) show False by simp
      qed
    qed
  qed
  from Cons.prems have "\<not> sublist pat xs" by (simp add: sublist_Cons_right)
  from Cons.IH [OF this] np show ?case by simp
qed

lemma placeholder_Cons: "placeholder = 0x7B # js ''CONTENT}''"
  by (simp add: placeholder_def js_def)

lemma indexOf_slot:
  assumes "\<not> sublist placeholder p" and "\<not> sublist placeholder path"
  shows "indexOf placeholder (baseTemplate p path) = Some (length (templateHead p path))"
proof -
  let ?a = "js ''The user wants me to do the following: ''"
  let ?b = "js ''. I have found the relevant file at ''"
  let ?c = \<open>js '', and its content is:\<newline>```\<newline>''\<close>
  have q: "0x22 \<notin> set placeholder"
    by (simp add: placeholder_def js_def)
  have fa: "0x7B \<notin> set (?a @ [0x22])" and fb: "0x7B \<notin> set ?b" and fc: "0x7B \<notin> set ?c"
    by (simp_all add: js_def)
  have t: "baseTemplate p path
      = (?a @ [0x22]) @ p @ 0x22 # (?b @ [0x22]) @ path @ 0x22 # ?c @ placeholder @ templateTail"
    by (simp add: baseTemplate_def templateHead_def js_def)
  have f: "indexOf placeholder (placeholder @ templateTail) = Some 0"
    by (simp add: placeholder_Cons)
  have e: "indexOf placeholder (0x22 # ?c @ placeholder @ templateTail) = Some (Suc (length ?c))"
    using indexOf_skip_free [of "0x7B" "0x22 # ?c" "js ''CONTENT}''", OF _ f [unfolded placeholder_Cons]] fc
    by (simp add: placeholder_Cons)
  have d: "indexOf placeholder (path @ 0x22 # ?c @ placeholder @ templateTail)
      = Some (length path + Suc (length ?c))"
    using indexOf_skip_nosub [OF assms(2) q e] .
  have c: "indexOf placeholder (0x22 # (?b @ [0x22]) @ path @ 0x22 # ?c @ placeholder @ templateTail)
      = Some (Suc (length (?b @ [0x22])) + (length path + Suc (length ?c)))"
    using indexOf_skip_free [of "0x7B" "0x22 # ?b @ [0x22]" "js ''CONTENT}''",
        OF _ d [unfolded placeholder_Cons]] fb
    by (simp add: placeholder_Cons)
  have b: "indexOf placeholder (p @ 0x22 # (?b @ [0x22]) @ path @ 0x22 # ?c @ placeholder @ templateTail)
      = Some (length p + (Suc (length (?b @ [0x22])) + (length path + Suc (length ?c))))"
    using indexOf_skip_nosub [OF assms(1) q c] .
  have a: "indexOf placeholder (baseTemplate p path)
      = Some (length (?a @ [0x22]) + (length p + (Suc (length (?b @ [0x22])) + (length path + Suc (length ?c)))))"
    unfolding t
    using indexOf_skip_free [OF fa b [unfolded placeholder_Cons]]
    by (simp only: placeholder_Cons)
  show ?thesis
    by (simp add: a templateHead_def length_js)
qed

lemma replace_at:
  assumes "indexOf pat (h @ pat @ t) = Some (length h)"
  shows "replace (h @ pat @ t) pat c = h @ getSubstitution pat h t c @ t"
  by (simp add: replace_def assms)

lemma no_dollar_no_pattern:
  "0x24 \<notin> set r \<Longrightarrow> \<not> hasReplacementPattern r"
  by (induction r rule: hasReplacementPattern.induct) auto

lemma hasReplacementPattern_Cons:
  "hasReplacementPattern (c # r)
     = ((c = 0x24 \<and> r \<noteq> [] \<and> (hd r = 0x24 \<or> hd r = 0x26 \<or> hd r = 0x60 \<or> hd r = 0x27))
        \<or> hasReplacementPattern r)"
  by (cases r) auto

lemma truncationNotice_not_in_gate:
  "count_list (gate s fileName fullPath enriched userPrompt) (AddItem (truncationNotice f)) = 0"
  by (simp add: gate_def sendQueryToModel_start_def noModelSelected_def truncationNotice_def
        autopilotNotice_def js_def)

text \<open>
  Counterexample to C1 as stated, on two inputs.

  The prompt is \<open>a.b\<close>, two blanks and 16400 times \<open>x\<close>, and the file \<open>/w/a.b\<close>
  holds \<open>hi\<close>. The token \<open>a.b\<close> resolves to the file, the budget is \<open>-152\<close>, the
  content (length 2) exceeds it, and the embedded content is empty: its length is 0,
  not the budget. The prompt that waits for approval is the bare template.

  The prompt is \<open>read a.txt\<close>, and the file \<open>/w/a.txt\<close> holds \<open>$&\<close> and 20000 times
  \<open>x\<close>. The budget is 16241 and the content is cut to 16241 characters, but
  \<open>replace\<close> expands the \<open>$&\<close> at its start to the matched text \<open>{CONTENT}\<close>: the
  text embedded in the prompt that waits for approval has 16248 characters.
\<close>

theorem embedded_length_differs_from_budget:
  "firstMatch (js ''a.b  '' @ replicate 16400 0x78) = Some (js ''a.b'')
   \<and> findFileRecursive
         \<lparr> cwd = js ''/w'', cwdEntries = Some [(js ''a.b'', NonDir (Some (js ''hi'')))] \<rparr>
         (js ''a.b'') = Some (js ''/w/a.b'')
   \<and> readFileSync
         \<lparr> cwd = js ''/w'', cwdEntries = Some [(js ''a.b'', NonDir (Some (js ''hi'')))] \<rparr>
         (js ''/w/a.b'') = Some (js ''hi'')
   \<and> availableChars (js ''a.b  '' @ replicate 16400 0x78) (js ''/w/a.b'') = - 152
   \<and> int (length (js ''hi''))
       > availableChars (js ''a.b  '' @ replicate 16400 0x78) (js ''/w/a.b'')
   \<and> embeddedContent (js ''a.b  '' @ replicate 16400 0x78) (js ''/w/a.b'') (js ''hi'') = []
   \<and> int (length (embeddedContent (js ''a.b  '' @ replicate 16400 0x78) (js ''/w/a.b'')
                     (js ''hi'')))
       \<noteq> availableChars (js ''a.b  '' @ replicate 16400 0x78) (js ''/w/a.b'')
   \<and> submitQuery
         \<lparr> cwd = js ''/w'', cwdEntries = Some [(js ''a.b'', NonDir (Some (js ''hi'')))] \<rparr>
         initialState (js ''a.b  '' @ replicate 16400 0x78)
       = Inr [AddItem (truncationNotice (js ''a.b'')),
              SetApprovalRequest (Some \<lparr> message = approvalMessage (js ''a.b''),
                enrichedPrompt
                  = templateHead (js ''a.b  '' @ replicate 16400 0x78) (js ''/w/a.b'')
                    @ templateTail,
                prompt = js ''a.b  '' @ replicate 16400 0x78,
                capturedModel = JNull, capturedHistory = [] \<rparr>)]
   \<and> firstMatch (js ''read a.txt'') = Some (js ''a.txt'')
   \<and> findFileRecursive
         \<lparr> cwd = js ''/w'',
           cwdEntries = Some [(js ''a.txt'', NonDir (Some (js ''$&'' @ replicate 20000 0x78)))] \<rparr>
         (js ''a.txt'') = Some (js ''/w/a.txt'')
   \<and> readFileSync
         \<lparr> cwd = js ''/w'',
           cwdEntries = Some [(js ''a.txt'', NonDir (Some (js ''$&'' @ replicate 20000 0x78)))] \<rparr>
         (js ''/w/a.txt'') = Some (js ''$&'' @ replicate 20000 0x78)
   \<and> availableChars (js ''read a.txt'') (js ''/w/a.txt'') = 16241
   \<and> int (length (js ''$&'' @ replicate 20000 0x78))
       > availableChars (js ''read a.txt'') (js ''/w/a.txt'')
   \<and> embeddedContent (js ''read a.txt'') (js ''/w/a.txt'') (js ''$&'' @ replicate 20000 0x78)
       = js ''$&'' @ replicate 16239 0x78
   \<and> submitQuery
         \<lparr> cwd = js ''/w'',
           cwdEntries = Some [(js ''a.txt'', NonDir (Some (js ''$&'' @ replicate 20000 0x78)))] \<rparr>
         initialState (js ''read a.txt'')
       = Inr [AddItem (truncationNotice (js ''a.txt'')),
              SetApprovalRequest (Some \<lparr> message = approvalMessage (js ''a.txt''),
                enrichedPrompt
                  = templateHead (js ''read a.txt'') (js ''/w/a.txt'')
                    @ (js ''{CONTENT}'' @ replicate 16239 0x78)
                    @ templateTail,
                prompt = js ''read a.txt'',
                capturedModel = JNull, capturedHistory = [] \<rparr>)]
   \<and> int (length (js ''{CONTENT}'' @ replicate 16239 (0x78 :: jschar)))
       \<noteq> availableChars (js ''read a.txt'') (js ''/w/a.txt'')"
proof -
  let ?p = "js ''a.b  '' @ replicate 16400 0x78"
  let ?env = "\<lparr> cwd = js ''/w'', cwdEntries = Some [(js ''a.b'', NonDir (Some (js ''hi'')))] \<rparr>"
  let ?env2 = "\<lparr> cwd = js ''/w'',
           cwdEntries = Some [(js ''a.txt'', NonDir (Some (js ''$&'' @ replicate 20000 0x78)))] \<rparr>"
  have m: "firstMatch ?p = Some (js ''a.b'')"
    by (simp add: js_def matchAt_def isNameChar_def isWordChar_def)
  have f: "findFileRecursive ?env (js ''a.b'') = Some (js ''/w/a.b'')"
    by (simp add: findFileRecursive_def pathJoin_def basename_def js_def)
  have r: "readFileSync ?env (js ''/w/a.b'') = Some (js ''hi'')"
    by (simp add: readFileSync_def pathJoin_def js_def)
  have b: "availableChars ?p (js ''/w/a.b'') = - 152"
    by (simp add: availableChars_def overhead_def baseTemplate_def templateHead_def
          templateTail_def placeholder_def length_js maxChars_def MAX_CONTEXT_TOKENS_def)
  have n: "\<not> sublist placeholder ?p" "\<not> sublist placeholder (js ''/w/a.b'')"
    "\<not> sublist placeholder (js ''read a.txt'')" "\<not> sublist placeholder (js ''/w/a.txt'')"
    by (auto simp: placeholder_def js_def dest!: set_mono_sublist)
  have e: "replace (baseTemplate ?p (js ''/w/a.b'')) placeholder []
      = templateHead ?p (js ''/w/a.b'') @ templateTail"
    using replace_at [OF indexOf_slot [OF n(1,2), unfolded baseTemplate_def], of "[]"]
    by (simp add: baseTemplate_def)
  have f2: "findFileRecursive ?env2 (js ''a.txt'') = Some (js ''/w/a.txt'')"
    by (simp add: findFileRecursive_def pathJoin_def basename_def js_def)
  have r2: "readFileSync ?env2 (js ''/w/a.txt'') = Some (js ''$&'' @ replicate 20000 0x78)"
    by (simp add: readFileSync_def pathJoin_def js_def)
  have b2: "availableChars (js ''read a.txt'') (js ''/w/a.txt'') = 16241"
    by (simp add: availableChars_def overhead_def baseTemplate_def templateHead_def
          templateTail_def placeholder_def length_js maxChars_def MAX_CONTEXT_TOKENS_def)
  have k2: "take 16241 (js ''$&'' @ replicate 20000 0x78) = js ''$&'' @ replicate 16239 0x78"
    by (simp add: js_def)
  have g2: "getSubstitution placeholder pre post (js ''$&'' @ replicate 16239 0x78)
      = js ''{CONTENT}'' @ replicate 16239 0x78" for pre post
    using getSubstitution_literal [OF no_dollar_no_pattern, of "replicate 16239 0x78"]
    by (simp add: js_def placeholder_def)
  have e2: "replace (baseTemplate (js ''read a.txt'') (js ''/w/a.txt'')) placeholder
        (js ''$&'' @ replicate 16239 0x78)
      = templateHead (js ''read a.txt'') (js ''/w/a.txt'')
        @ (js ''{CONTENT}'' @ replicate 16239 0x78) @ templateTail"
    using replace_at [OF indexOf_slot [OF n(3,4), unfolded baseTemplate_def],
        of "js ''$&'' @ replicate 16239 0x78"]
    by (simp only: baseTemplate_def g2)
  show ?thesis
    by (simp add: m f r b e f2 r2 b2 k2 e2 firstMatch_read_a_txt embeddedContent_def
          substring0_def length_js submitQuery_def gate_def initialState_def)
qed

text \<open>
  C1, amended. For every prompt with a filename token that resolves to a readable
  file, the budget is 16384 minus (template length minus placeholder length).
  Whenever the file's content is longer than the budget, the content kept for the
  template is the first budget-many characters of the file, none when the budget is
  negative: its length is exactly the budget when the budget is not negative and 0
  otherwise. The pipeline then appends exactly one truncation notice. The prompt
  handed to the gate is the template with its first \<open>{CONTENT}\<close> replaced by what
  \<open>replace\<close> makes of the kept content. Whenever the kept content holds none of the
  patterns \<open>$$\<close>, \<open>$&\<close>, \<open>$`\<close> and \<open>$'\<close>, that is the kept content itself, so the
  embedded content has exactly the length above and the prompt has length 16384, or
  the length of the bare template when that is more. The first \<open>{CONTENT}\<close> is the
  slot of the template whenever neither the prompt nor the path holds \<open>{CONTENT}\<close>.
\<close>

theorem truncation_to_budget:
  assumes "firstMatch userPrompt = Some fileName"
      and "findFileRecursive env fileName = Some fullPath"
      and "readFileSync env fullPath = Some fileContent"
      and "int (length fileContent) > availableChars userPrompt fullPath"
  shows "availableChars userPrompt fullPath
           = 16384 - (int (length (baseTemplate userPrompt fullPath)) - int (length placeholder))
       \<and> embeddedContent userPrompt fullPath fileContent
           = take (nat (availableChars userPrompt fullPath)) fileContent
       \<and> int (length (embeddedContent userPrompt fullPath fileContent))
           = max 0 (availableChars userPrompt fullPath)
       \<and> (\<exists>effects. submitQuery env s userPrompt = Inr effects
             \<and> count_list effects (AddItem (truncationNotice fileName)) = 1)
       \<and> (\<exists>pre post.
             baseTemplate userPrompt fullPath = pre @ placeholder @ post
           \<and> indexOf placeholder (baseTemplate userPrompt fullPath) = Some (length pre)
           \<and> submitQuery env s userPrompt
               = Inr (AddItem (truncationNotice fileName)
                      # gate s fileName (Some fullPath)
                          (pre
                           @ getSubstitution placeholder pre post
                               (take (nat (availableChars userPrompt fullPath)) fileContent)
                           @ post)
                          userPrompt)
           \<and> (\<not> hasReplacementPattern
                    (take (nat (availableChars userPrompt fullPath)) fileContent)
                \<longrightarrow> getSubstitution placeholder pre post
                        (take (nat (availableChars userPrompt fullPath)) fileContent)
                      = take (nat (availableChars userPrompt fullPath)) fileContent
                  \<and> int (length (pre
                                  @ take (nat (availableChars userPrompt fullPath)) fileContent
                                  @ post))
                      = max 16384 (overhead userPrompt fullPath))
           \<and> (\<not> sublist placeholder userPrompt \<and> \<not> sublist placeholder fullPath
                \<longrightarrow> pre = templateHead userPrompt fullPath \<and> post = templateTail))"
proof -
  let ?n = "nat (availableChars userPrompt fullPath)"
  let ?t = "baseTemplate userPrompt fullPath"
  have budget: "availableChars userPrompt fullPath
      = 16384 - (int (length ?t) - int (length placeholder))"
    by (simp add: availableChars_def overhead_def maxChars_def MAX_CONTEXT_TOKENS_def)
  have emb: "embeddedContent userPrompt fullPath fileContent = take ?n fileContent"
    using assms(4) by (simp add: embeddedContent_def substring0_def)
  have len: "int (length (take ?n fileContent)) = max 0 (availableChars userPrompt fullPath)"
    using assms(4) by simp
  have sq: "submitQuery env s userPrompt
      = Inr (AddItem (truncationNotice fileName)
             # gate s fileName (Some fullPath)
                 (replace ?t placeholder (take ?n fileContent)) userPrompt)"
    using assms by (simp add: submitQuery_def emb)
  have one: "\<exists>effects. submitQuery env s userPrompt = Inr effects
      \<and> count_list effects (AddItem (truncationNotice fileName)) = 1"
    by (simp add: sq truncationNotice_not_in_gate)
  from replace_first [of ?t "templateHead userPrompt fullPath" placeholder templateTail
      "take ?n fileContent"]
  obtain pre post where t: "?t = pre @ placeholder @ post"
    and i: "indexOf placeholder ?t = Some (length pre)"
    and r: "replace ?t placeholder (take ?n fileContent)
            = pre @ getSubstitution placeholder pre post (take ?n fileContent) @ post"
    by (auto simp: baseTemplate_def)
  have total: "int (length (pre @ take ?n fileContent @ post))
      = max 16384 (overhead userPrompt fullPath)"
  proof -
    have "int (length pre) + int (length post) = overhead userPrompt fullPath"
      by (simp add: overhead_def t)
    with len show ?thesis
      by (simp add: availableChars_def maxChars_def MAX_CONTEXT_TOKENS_def)
  qed
  have slot: "pre = templateHead userPrompt fullPath \<and> post = templateTail"
    if "\<not> sublist placeholder userPrompt" "\<not> sublist placeholder fullPath"
  proof -
    from indexOf_slot [OF that] i have l: "length pre = length (templateHead userPrompt fullPath)"
      by simp
    from t have "pre @ placeholder @ post = templateHead userPrompt fullPath @ placeholder @ templateTail"
      by (simp add: baseTemplate_def)
    with l show ?thesis by simp
  qed
  have "baseTemplate userPrompt fullPath = pre @ placeholder @ post
           \<and> indexOf placeholder (baseTemplate userPrompt fullPath) = Some (length pre)
           \<and> submitQuery env s userPrompt
               = Inr (AddItem (truncationNotice fileName)
                      # gate s fileName (Some fullPath)
                          (pre @ getSubstitution placeholder pre post (take ?n fileContent) @ post)
                          userPrompt)
           \<and> (\<not> hasReplacementPattern (take ?n fileContent)
                \<longrightarrow> getSubstitution placeholder pre post (take ?n fileContent)
                      = take ?n fileContent
                  \<and> int (length (pre @ take ?n fileContent @ post))
                      = max 16384 (overhead userPrompt fullPath))
           \<and> (\<not> sublist placeholder userPrompt \<and> \<not> sublist placeholder fullPath
                \<longrightarrow> pre = templateHead userPrompt fullPath \<and> post = templateTail)"
    using t i sq r total slot by (simp add: getSubstitution_literal)
  then have shape: "\<exists>pre post.
             baseTemplate userPrompt fullPath = pre @ placeholder @ post
           \<and> indexOf placeholder (baseTemplate userPrompt fullPath) = Some (length pre)
           \<and> submitQuery env s userPrompt
               = Inr (AddItem (truncationNotice fileName)
                      # gate s fileName (Some fullPath)
                          (pre @ getSubstitution placeholder pre post (take ?n fileContent) @ post)
                          userPrompt)
           \<and> (\<not> hasReplacementPattern (take ?n fileContent)
                \<longrightarrow> getSubstitution placeholder pre post (take ?n fileContent)
                      = take ?n fileContent
                  \<and> int (length (pre @ take ?n fileContent @ post))
                      = max 16384 (overhead userPrompt fullPath))
           \<and> (\<not> sublist placeholder userPrompt \<and> \<not> sublist placeholder fullPath
                \<longrightarrow> pre = templateHead userPrompt fullPath \<and> post = templateTail)"
    by blast
  show ?thesis
    using budget emb len one shape by simp
qed

text \<open>
  Witness for C1: the prompt \<open>fix f() {} in a.txt\<close>, and the file \<open>/w/a.txt\<close> holding
  \<open>echo $HOME; x=$1 5$\<close> and 20000 times \<open>x\<close>. The budget is 16232, the content is
  cut to 16232 characters, which hold dollar signs but no pattern, one truncation
  notice is appended, and the approval request carries the template with the cut
  content in its slot.
\<close>

theorem truncation_to_budget_witness:
  "firstMatch (js ''fix f() {} in a.txt'') = Some (js ''a.txt'')
   \<and> findFileRecursive
         \<lparr> cwd = js ''/w'',
           cwdEntries = Some [(js ''a.txt'', NonDir (Some (js ''echo $HOME; x=$1 5$'' @ replicate 20000 0x78)))] \<rparr>
         (js ''a.txt'') = Some (js ''/w/a.txt'')
   \<and> readFileSync
         \<lparr> cwd = js ''/w'',
           cwdEntries = Some [(js ''a.txt'', NonDir (Some (js ''echo $HOME; x=$1 5$'' @ replicate 20000 0x78)))] \<rparr>
         (js ''/w/a.txt'') = Some (js ''echo $HOME; x=$1 5$'' @ replicate 20000 0x78)
   \<and> availableChars (js ''fix f() {} in a.txt'') (js ''/w/a.txt'') = 16232
   \<and> int (length (js ''echo $HOME; x=$1 5$'' @ replicate 20000 0x78)) > 16232
   \<and> embeddedContent (js ''fix f() {} in a.txt'') (js ''/w/a.txt'') (js ''echo $HOME; x=$1 5$'' @ replicate 20000 0x78)
       = js ''echo $HOME; x=$1 5$'' @ replicate 16213 0x78
   \<and> length (js ''echo $HOME; x=$1 5$'' @ replicate 16213 (0x78 :: jschar)) = 16232
   \<and> \<not> hasReplacementPattern (js ''echo $HOME; x=$1 5$'' @ replicate 16213 0x78)
   \<and> \<not> sublist placeholder (js ''fix f() {} in a.txt'')
   \<and> \<not> sublist placeholder (js ''/w/a.txt'')
   \<and> submitQuery
         \<lparr> cwd = js ''/w'',
           cwdEntries = Some [(js ''a.txt'', NonDir (Some (js ''echo $HOME; x=$1 5$'' @ replicate 20000 0x78)))] \<rparr>
         initialState (js ''fix f() {} in a.txt'')
       = Inr [AddItem (truncationNotice (js ''a.txt'')),
              SetApprovalRequest (Some \<lparr> message = approvalMessage (js ''a.txt''),
                enrichedPrompt = templateHead (js ''fix f() {} in a.txt'') (js ''/w/a.txt'')
                                 @ (js ''echo $HOME; x=$1 5$'' @ replicate 16213 0x78)
                                 @ templateTail,
                prompt = js ''fix f() {} in a.txt'',
                capturedModel = JNull, capturedHistory = [] \<rparr>)]"
proof -
  let ?env = "\<lparr> cwd = js ''/w'',
           cwdEntries = Some [(js ''a.txt'', NonDir (Some (js ''echo $HOME; x=$1 5$'' @ replicate 20000 0x78)))] \<rparr>"
  let ?p = "(js ''fix f() {} in a.txt'')"
  let ?kept = "js ''echo $HOME; x=$1 5$'' @ replicate 16213 (0x78 :: jschar)"
  have m: "firstMatch ?p = Some (js ''a.txt'')"
    by (simp add: js_def matchAt_def isNameChar_def isWordChar_def)
  have f: "findFileRecursive ?env (js ''a.txt'') = Some (js ''/w/a.txt'')"
    by (simp add: findFileRecursive_def pathJoin_def basename_def js_def)
  have r: "readFileSync ?env (js ''/w/a.txt'') = Some (js ''echo $HOME; x=$1 5$'' @ replicate 20000 0x78)"
    by (simp add: readFileSync_def pathJoin_def js_def)
  have b: "availableChars ?p (js ''/w/a.txt'') = 16232"
    by (simp add: availableChars_def overhead_def baseTemplate_def templateHead_def
          templateTail_def placeholder_def length_js maxChars_def MAX_CONTEXT_TOKENS_def)
  have longer: "int (length (js ''echo $HOME; x=$1 5$'' @ replicate 20000 0x78)) > availableChars ?p (js ''/w/a.txt'')"
    by (simp add: b length_js)
  have k: "take (nat (availableChars ?p (js ''/w/a.txt''))) (js ''echo $HOME; x=$1 5$'' @ replicate 20000 0x78) = ?kept"
    unfolding b by (simp add: js_def)
  have np: "\<not> hasReplacementPattern ?kept"
    using no_dollar_no_pattern [of "replicate 16213 0x78"]
    by (simp add: js_def hasReplacementPattern_Cons)
  have ns: "\<not> sublist placeholder ?p" "\<not> sublist placeholder (js ''/w/a.txt'')"
    by (simp_all add: placeholder_def js_def sublist_Cons_right)
  show ?thesis
    using m f r b k np ns
      truncation_to_budget [OF m f r longer, of initialState]
    by (auto simp: gate_def initialState_def length_js)
qed

section \<open>Properties of the approval gate\<close>

lemma createsApprovalRequest_Set:
  "createsApprovalRequest (SetApprovalRequest r) = (r \<noteq> None)"
  by (cases r) simp_all

lemma approvalRequest_applyEffect:
  "\<not> createsApprovalRequest e \<Longrightarrow>
   approvalRequest (applyEffect e s) = None \<or> approvalRequest (applyEffect e s) = approvalRequest s"
  by (cases "(e, s)" rule: applyEffect.cases) (auto simp: createsApprovalRequest_Set)

lemma approvalRequest_run:
  "\<not> list_ex createsApprovalRequest effects \<Longrightarrow>
   approvalRequest (run effects s) = None \<or> approvalRequest (run effects s) = approvalRequest s"
proof (induction effects arbitrary: s)
  case Nil
  then show ?case by (simp add: run_Nil)
next
  case (Cons e effects)
  then have e: "\<not> createsApprovalRequest e" and r: "\<not> list_ex createsApprovalRequest effects"
    by simp_all
  from approvalRequest_applyEffect [OF e, of s] Cons.IH [OF r, of "applyEffect e s"]
  show ?case by (auto simp: run_Cons)
qed

lemma globalInput_creates_no_request:
  "\<not> list_ex createsApprovalRequest (globalInput s input key)"
  by (simp add: globalInput_def handleExit_def Let_def split: option.splits)

lemma approvalInput_creates_no_request:
  "\<not> list_ex createsApprovalRequest (approvalInput pending input key)"
  by (simp add: approvalInput_def onApprove_def onDeny_def start_creates_no_request
        split: option.splits)

lemma fetchModels_with_effects:
  assumes "e \<in> set (fetchModels_with failureText converted response)"
  shows "(\<exists>v. e = SetModels v) \<or> (\<exists>v. e = SetSelectedModel v)
       \<or> e = AddItem \<lparr> itemType = ERROR, itemText = JStr failureText \<rparr>"
  using assms
  by (auto simp: fetchModels_with_def Let_def
        split: models_response.splits sum.splits bool.splits if_splits)

lemma settled_creates_no_request:
  "\<not> list_ex createsApprovalRequest (fetchModels converted response)"
  "\<not> list_ex createsApprovalRequest (sendQueryToModel_finish outcome)"
proof -
  show "\<not> list_ex createsApprovalRequest (fetchModels converted response)"
    by (auto simp: list_ex_iff fetchModels_def dest!: fetchModels_with_effects)
  show "\<not> list_ex createsApprovalRequest (sendQueryToModel_finish outcome)"
    by (simp add: sendQueryToModel_finish_def split: sum.splits)
qed

lemma pending_event_creates_no_request:
  assumes "approvalRequest s = Some r" and "handleEvent env s e = Inr effects"
  shows "\<not> list_ex createsApprovalRequest effects"
  using assms
  by (cases e)
     (auto simp: handleEvent_def isInputActive_def approvalInput_creates_no_request
        globalInput_creates_no_request settled_creates_no_request)

text \<open>
  C3. For every pending approval request \<open>r\<close>:
  \<^item> the deny action clears the slot and appends the cancellation notice, and does
    nothing else, so it issues no request;
  \<^item> the approve action clears the slot and makes the suspended call of the dispatch,
    once: with a model selected exactly one request, carrying the suspended prompt, is
    issued;
  \<^item> the listener maps Return, \<open>y\<close> and \<open>Y\<close> to approve, \<open>n\<close> and \<open>N\<close> to deny and
    ignores everything else, and after either action it is inactive;
  \<^item> while \<open>r\<close> is pending no event creates an approval request: a submit is not
    taken (the input prompt is not rendered), and after any event the slot is empty
    or still holds \<open>r\<close>.
\<close>

theorem approval_gate:
  assumes "approvalRequest s = Some r"
  shows "onDeny r = [SetApprovalRequest None,
                     AddItem \<lparr> itemType = INFO, itemText = JStr (js ''Action cancelled.'') \<rparr>]
       \<and> run (onDeny r) s
           = s\<lparr> approvalRequest := None,
                history := history s
                  @ [\<lparr> itemType = INFO, itemText = JStr (js ''Action cancelled.'') \<rparr>] \<rparr>
       \<and> onApprove r
           = SetApprovalRequest None
             # sendQueryToModel_start (capturedModel r) (capturedHistory r)
                 (enrichedPrompt r) (prompt r)
       \<and> approvalRequest (run (onApprove r) s) = None
       \<and> (if falsyModel (capturedModel r) then requests (run (onApprove r) s) = requests s
           else requests (run (onApprove r) s)
                  = requests s @ [ChatCompletion chatUrl (capturedModel r) (enrichedPrompt r)])
       \<and> approvalInput (approvalRequest s) input key
           = (if return key \<or> toLowerCase input = js ''y'' then onApprove r
              else if toLowerCase input = js ''n'' then onDeny r else [])
       \<and> approvalInput (approvalRequest (run (onApprove r) s)) input key = []
       \<and> approvalInput (approvalRequest (run (onDeny r) s)) input key = []
       \<and> handleEvent env s (Submit submittedValue) = Inr []
       \<and> (case handleEvent env s e of
             Inl f \<Rightarrow> True
           | Inr effects \<Rightarrow> \<not> list_ex createsApprovalRequest effects)
       \<and> (approvalRequest (step env e s) = None \<or> approvalRequest (step env e s) = Some r)"
proof -
  have deny: "run (onDeny r) s
      = s\<lparr> approvalRequest := None,
           history := history s
             @ [\<lparr> itemType = INFO, itemText = JStr (js ''Action cancelled.'') \<rparr>] \<rparr>"
    by (simp add: onDeny_def run_Cons run_Nil addItem_def)
  have appr: "approvalRequest (run (onApprove r) s) = None"
    using approvalRequest_run [OF start_creates_no_request,
        of "capturedModel r" "capturedHistory r" "enrichedPrompt r" "prompt r"
           "applyEffect (SetApprovalRequest None) s"]
    by (auto simp: onApprove_def run_Cons)
  have reqs: "(if falsyModel (capturedModel r) then requests (run (onApprove r) s) = requests s
           else requests (run (onApprove r) s)
                  = requests s @ [ChatCompletion chatUrl (capturedModel r) (enrichedPrompt r)])"
    by (simp add: onApprove_def sendQueryToModel_start_def noModelSelected_def
          run_Cons run_Nil run_append)
  have sub: "handleEvent env s (Submit submittedValue) = Inr []"
    using assms by (simp add: handleEvent_def isInputActive_def)
  have ev: "(case handleEvent env s e of
             Inl f \<Rightarrow> True
           | Inr effects \<Rightarrow> \<not> list_ex createsApprovalRequest effects)"
    using pending_event_creates_no_request [OF assms] by (simp split: sum.splits)
  have st: "approvalRequest (step env e s) = None \<or> approvalRequest (step env e s) = Some r"
  proof (cases "handleEvent env s e")
    case (Inl f)
    then show ?thesis using assms by (simp add: step_def)
  next
    case (Inr effects)
    from approvalRequest_run [OF pending_event_creates_no_request [OF assms Inr], of s] assms Inr
    show ?thesis by (simp add: step_def)
  qed
  show ?thesis
    using deny appr reqs sub ev st assms
    by (simp add: onDeny_def onApprove_def approvalInput_def)
qed

text \<open>
  Witness for C3: the request that \<open>read a.txt\<close> raises when no such file exists, made
  while the model \<open>m\<close> was selected. Denying it leaves the cancellation notice and no
  request; approving it issues the one request; a further submit is not taken.
\<close>

theorem approval_gate_witness:
  "approvalRequest
     (initialState\<lparr> approvalRequest := Some \<lparr> message = approvalMessage (js ''a.txt''),
         enrichedPrompt = notFoundPrompt (js ''a.txt''), prompt = js ''read a.txt'',
         capturedModel = JStr (js ''m''), capturedHistory = [] \<rparr> \<rparr>)
     = Some \<lparr> message = approvalMessage (js ''a.txt''),
         enrichedPrompt = notFoundPrompt (js ''a.txt''), prompt = js ''read a.txt'',
         capturedModel = JStr (js ''m''), capturedHistory = [] \<rparr>
   \<and> run (onDeny \<lparr> message = approvalMessage (js ''a.txt''),
         enrichedPrompt = notFoundPrompt (js ''a.txt''), prompt = js ''read a.txt'',
         capturedModel = JStr (js ''m''), capturedHistory = [] \<rparr>)
       (initialState\<lparr> approvalRequest := Some \<lparr> message = approvalMessage (js ''a.txt''),
         enrichedPrompt = notFoundPrompt (js ''a.txt''), prompt = js ''read a.txt'',
         capturedModel = JStr (js ''m''), capturedHistory = [] \<rparr> \<rparr>)
     = initialState\<lparr> history :=
         [\<lparr> itemType = INFO, itemText = JStr (js ''Action cancelled.'') \<rparr>] \<rparr>
   \<and> requests (run (onApprove \<lparr> message = approvalMessage (js ''a.txt''),
         enrichedPrompt = notFoundPrompt (js ''a.txt''), prompt = js ''read a.txt'',
         capturedModel = JStr (js ''m''), capturedHistory = [] \<rparr>)
       (initialState\<lparr> approvalRequest := Some \<lparr> message = approvalMessage (js ''a.txt''),
         enrichedPrompt = notFoundPrompt (js ''a.txt''), prompt = js ''read a.txt'',
         capturedModel = JStr (js ''m''), capturedHistory = [] \<rparr> \<rparr>))
     = [ChatCompletion chatUrl (JStr (js ''m'')) (notFoundPrompt (js ''a.txt''))]
   \<and> handleEvent \<lparr> cwd = js ''/w'', cwdEntries = Some [] \<rparr>
       (initialState\<lparr> approvalRequest := Some \<lparr> message = approvalMessage (js ''a.txt''),
         enrichedPrompt = notFoundPrompt (js ''a.txt''), prompt = js ''read a.txt'',
         capturedModel = JStr (js ''m''), capturedHistory = [] \<rparr> \<rparr>)
       (Submit (js ''read b.txt'')) = Inr []"
proof -
  let ?r = "\<lparr> message = approvalMessage (js ''a.txt''),
      enrichedPrompt = notFoundPrompt (js ''a.txt''), prompt = js ''read a.txt'',
      capturedModel = JStr (js ''m''), capturedHistory = [] \<rparr>"
  let ?s = "initialState\<lparr> approvalRequest := Some ?r \<rparr>"
  have p: "approvalRequest ?s = Some ?r"
    by simp
  have m: "\<not> falsyModel (JStr (js ''m''))"
    by (simp add: falsyModel_def js_def)
  from approval_gate [OF p, of "[]" "\<lparr> ctrl = False, return = False \<rparr>"
      "\<lparr> cwd = js ''/w'', cwdEntries = Some [] \<rparr>" "js ''read b.txt''"
      "Submit (js ''read b.txt'')"] m
  show ?thesis
    by (simp add: initialState_def onDeny_def onApprove_def sendQueryToModel_start_def
          lastText_def run_Cons run_Nil run_append addItem_def handleEvent_def
          isInputActive_def)
qed

section \<open>Properties of the session\<close>

subsection \<open>A pending request implies Idle\<close>

text \<open>
  An approval request is only created by a submit, which is taken only while the
  streaming state is Idle, and the effects that create a request leave the streaming
  state alone. So in every reachable state a request is pending only while the state
  is Idle.
\<close>

lemma streamingState_applyEffect:
  "\<not> setsStreamingState e \<Longrightarrow> streamingState (applyEffect e s) = streamingState s"
  by (cases "(e, s)" rule: applyEffect.cases) auto

lemma streamingState_run:
  "\<not> list_ex setsStreamingState effects \<Longrightarrow> streamingState (run effects s) = streamingState s"
  by (induction effects arbitrary: s) (simp_all add: run_Nil run_Cons streamingState_applyEffect)

lemma approvalRequest_run_None:
  assumes "\<not> list_ex createsApprovalRequest effects" and "approvalRequest s = None"
  shows "approvalRequest (run effects s) = None"
  using approvalRequest_run [OF assms(1), of s] assms(2) by auto

lemma gate_either:
  "\<not> list_ex createsApprovalRequest (gate s f p enriched q)
   \<or> \<not> list_ex setsStreamingState (gate s f p enriched q)"
  by (simp add: gate_def start_creates_no_request)

lemma submitQuery_either:
  assumes "submitQuery env s q = Inr effects"
  shows "\<not> list_ex createsApprovalRequest effects \<or> \<not> list_ex setsStreamingState effects"
  using assms gate_either [of s]
  by (auto simp: submitQuery_def start_creates_no_request truncationNotice_def
        split: option.splits if_splits)

lemma globalInput_sets_no_streaming:
  "\<not> list_ex setsStreamingState (globalInput s input key)"
  by (simp add: globalInput_def handleExit_def Let_def split: option.splits)

lemma fetchModels_sets_no_streaming:
  "\<not> list_ex setsStreamingState (fetchModels converted response)"
  by (auto simp: list_ex_iff fetchModels_def dest!: fetchModels_with_effects)

lemma advanceTo_frame:
  "approvalRequest (advanceTo t s) = approvalRequest s"
  "streamingState (advanceTo t s) = streamingState s"
proof -
  have f: "approvalRequest (foldl (\<lambda>st tm. fireTimer tm st) s tms) = approvalRequest s
         \<and> streamingState (foldl (\<lambda>st tm. fireTimer tm st) s tms) = streamingState s" for tms
  proof (induction tms arbitrary: s)
    case Nil
    then show ?case by simp
  next
    case (Cons tm tms)
    obtain i d k where tm: "tm = (i, d, k)" by (cases tm) auto
    have "approvalRequest (fireTimer (i, d, k) s) = approvalRequest s"
      "streamingState (fireTimer (i, d, k) s) = streamingState s"
      by (cases k; simp add: fireTimer_def exitTimerCallback_def run_Cons run_Nil)+
    with Cons.IH [of "fireTimer (i, d, k) s"] show ?case by (simp add: tm)
  qed
  show "approvalRequest (advanceTo t s) = approvalRequest s"
    "streamingState (advanceTo t s) = streamingState s"
    using f by (simp_all add: advanceTo_def)
qed

lemma step_keeps_pending_idle:
  assumes "approvalRequest s = None \<or> streamingState s = Idle"
  shows "approvalRequest (step env e s) = None \<or> streamingState (step env e s) = Idle"
proof (cases e)
  case (Submit v)
  show ?thesis
  proof (cases "handleEvent env s e")
    case (Inl f)
    then show ?thesis using assms by (simp add: step_def)
  next
    case (Inr effects)
    show ?thesis
    proof (cases "isInputActive s \<and> trim v \<noteq> []")
      case False
      then have "effects = []"
        using Inr Submit by (auto simp: handleEvent_def handleFinalSubmit_def Let_def split: if_splits)
      then show ?thesis using assms Inr by (simp add: step_def run_Nil)
    next
      case True
      then have sq: "submitQuery env s (trim v) = Inr effects"
        using Inr Submit by (simp add: handleEvent_def handleFinalSubmit_def Let_def)
      from True have none: "approvalRequest s = None" and idle: "streamingState s = Idle"
        by (simp_all add: isInputActive_def)
      from submitQuery_either [OF sq] show ?thesis
      proof
        assume "\<not> list_ex createsApprovalRequest effects"
        from approvalRequest_run_None [OF this none] Inr show ?thesis by (simp add: step_def)
      next
        assume "\<not> list_ex setsStreamingState effects"
        from streamingState_run [OF this, of s] idle Inr show ?thesis by (simp add: step_def)
      qed
    qed
  qed
next
  case (KeyPress input key)
  let ?g = "globalInput s input key"
  have g: "\<not> list_ex createsApprovalRequest ?g" "\<not> list_ex setsStreamingState ?g"
    by (rule globalInput_creates_no_request, rule globalInput_sets_no_streaming)
  have st: "step env e s = run ?g (run (approvalInput (approvalRequest s) input key) s)"
    by (simp add: step_def handleEvent_def KeyPress run_append)
  show ?thesis
  proof (cases "approvalInput (approvalRequest s) input key = []")
    case True
    from approvalRequest_run [OF g(1), of s] streamingState_run [OF g(2), of s] assms
    show ?thesis by (auto simp: st True run_Nil)
  next
    case False
    then obtain r where r: "approvalRequest s = Some r"
      and eff: "approvalInput (approvalRequest s) input key = onApprove r
              \<or> approvalInput (approvalRequest s) input key = onDeny r"
      by (auto simp: approvalInput_def split: option.splits if_splits)
    have "approvalRequest (run (approvalInput (approvalRequest s) input key) s) = None"
      using eff
    proof
      assume a: "approvalInput (approvalRequest s) input key = onApprove r"
      have "approvalRequest (run (sendQueryToModel_start (capturedModel r) (capturedHistory r)
              (enrichedPrompt r) (prompt r)) (applyEffect (SetApprovalRequest None) s)) = None"
        by (rule approvalRequest_run_None [OF start_creates_no_request]) simp
      then show ?thesis by (simp add: a onApprove_def run_Cons)
    next
      assume d: "approvalInput (approvalRequest s) input key = onDeny r"
      show ?thesis by (simp add: d onDeny_def run_Cons run_Nil)
    qed
    from approvalRequest_run_None [OF g(1) this] show ?thesis by (simp add: st)
  qed
next
  case (ModelsSettled converted response)
  have a: "\<not> list_ex createsApprovalRequest (fetchModels converted response)"
    by (rule settled_creates_no_request)
  from approvalRequest_run [OF a, of s]
    streamingState_run [OF fetchModels_sets_no_streaming, of converted response s] assms
  show ?thesis by (auto simp: step_def handleEvent_def ModelsSettled)
next
  case (ChatSettled outcome)
  then show ?thesis
    by (simp add: step_def handleEvent_def streamingState_run_finish)
qed

lemma reachable_pending_idle:
  "reachable s \<Longrightarrow> approvalRequest s = None \<or> streamingState s = Idle"
proof (induction rule: reachable.induct)
  case initial
  then show ?case by (simp add: initialState_def)
next
  case (event s env e)
  then show ?case by (simp add: step_keeps_pending_idle)
next
  case (exitKey s k)
  have "\<not> list_ex createsApprovalRequest (pressExitKey k s)"
    and ns: "\<not> list_ex setsStreamingState (pressExitKey k s)"
    by (cases k; simp add: pressExitKey_def handleExit_def split: option.splits)+
  from approvalRequest_run [OF this(1), of s] streamingState_run [OF ns, of s] exitKey.IH
  show ?case by auto
next
  case (time s t)
  then show ?case by (simp add: advanceTo_frame)
qed

lemma dispatch_marks_absent:
  "noModelSelected \<notin> set (globalInput s input key)"
  "SetStreamingState Responding \<notin> set (globalInput s input key)"
  "noModelSelected \<notin> set (fetchModels converted response)"
  "SetStreamingState Responding \<notin> set (fetchModels converted response)"
  "noModelSelected \<notin> set (sendQueryToModel_finish outcome)"
  "SetStreamingState Responding \<notin> set (sendQueryToModel_finish outcome)"
proof -
  show "noModelSelected \<notin> set (globalInput s input key)"
    "SetStreamingState Responding \<notin> set (globalInput s input key)"
    "noModelSelected \<notin> set (sendQueryToModel_finish outcome)"
    "SetStreamingState Responding \<notin> set (sendQueryToModel_finish outcome)"
    by (simp_all add: globalInput_def handleExit_def Let_def noModelSelected_def
          sendQueryToModel_finish_def js_def split: option.splits sum.splits)
  show "noModelSelected \<notin> set (fetchModels converted response)"
    by (auto simp: fetchModels_def noModelSelected_def couldNotConnect_def js_def
          dest!: fetchModels_with_effects)
  show "SetStreamingState Responding \<notin> set (fetchModels converted response)"
    by (auto simp: fetchModels_def dest!: fetchModels_with_effects)
qed

lemma dispatch_from_idle:
  assumes "reachable s" and "handleEvent env s e = Inr effects"
      and "noModelSelected \<in> set effects \<or> SetStreamingState Responding \<in> set effects"
  shows "streamingState s = Idle"
proof (cases e)
  case (Submit v)
  with assms(2,3) have "isInputActive s"
    by (auto simp: handleEvent_def split: if_splits)
  then show ?thesis by (simp add: isInputActive_def)
next
  case (KeyPress input key)
  with assms(2,3) have "approvalInput (approvalRequest s) input key \<noteq> []"
    using dispatch_marks_absent(1,2) [of s input key]
    by (auto simp: handleEvent_def)
  then have "approvalRequest s \<noteq> None"
    by (cases "approvalRequest s") (simp_all add: approvalInput_def)
  with reachable_pending_idle [OF assms(1)] show ?thesis by simp
next
  case (ModelsSettled converted response)
  with assms(2,3) dispatch_marks_absent(3,4) [of converted response] show ?thesis
    by (auto simp: handleEvent_def)
next
  case (ChatSettled outcome)
  with assms(2,3) dispatch_marks_absent(5,6) [of outcome] show ?thesis
    by (auto simp: handleEvent_def)
qed

subsection \<open>The table of timeouts\<close>

text \<open>
  The table of timeouts stays well formed: only \<open>handleExit\<close> and the callback of a
  timeout change it. Hence a key that is not pressed has no timeout set.
\<close>

lemma timer_frame_applyEffect:
  assumes "\<not> isTimerEffect e"
  shows "timers (applyEffect e s) = timers s \<and> nextTimerId (applyEffect e s) = nextTimerId s
       \<and> pressedOnce k (applyEffect e s) = pressedOnce k s"
  using assms
  by (cases "(e, s)" rule: applyEffect.cases) (auto simp: pressedOnce_def split: exit_key.splits)

lemma timer_frame_run:
  assumes "\<not> list_ex isTimerEffect effects"
  shows "timers (run effects s) = timers s \<and> nextTimerId (run effects s) = nextTimerId s
       \<and> pressedOnce k (run effects s) = pressedOnce k s"
  using assms
proof (induction effects arbitrary: s)
  case Nil
  then show ?case by (simp add: run_Nil)
next
  case (Cons e effects)
  then have e: "\<not> isTimerEffect e" and r: "\<not> list_ex isTimerEffect effects" by simp_all
  from timer_frame_applyEffect [OF e, where s = s and k = k]
    Cons.IH [OF r, where s = "applyEffect e s"]
  show ?case by (simp add: run_Cons)
qed

lemma wf_frame_run:
  assumes "\<not> list_ex isTimerEffect effects"
  shows "timersWellFormed (run effects s) = timersWellFormed s"
  using timer_frame_run [OF assms, where s = s]
  by (simp add: timersWellFormed_def)

lemma no_timer_effects:
  "\<not> list_ex isTimerEffect (sendQueryToModel_start model hist p q)"
  "\<not> list_ex isTimerEffect (sendQueryToModel_finish outcome)"
  "\<not> list_ex isTimerEffect (fetchModels converted response)"
  "\<not> list_ex isTimerEffect (approvalInput pending input key)"
  "\<not> list_ex isTimerEffect (gate s f fp enriched q)"
proof -
  show "\<not> list_ex isTimerEffect (sendQueryToModel_start model hist p q)"
    "\<not> list_ex isTimerEffect (sendQueryToModel_finish outcome)"
    "\<not> list_ex isTimerEffect (approvalInput pending input key)"
    "\<not> list_ex isTimerEffect (gate s f fp enriched q)"
    by (simp_all add: sendQueryToModel_start_def noModelSelected_def sendQueryToModel_finish_def
          approvalInput_def onApprove_def onDeny_def gate_def
          split: option.splits sum.splits)
  show "\<not> list_ex isTimerEffect (fetchModels converted response)"
    by (auto simp: list_ex_iff fetchModels_def dest!: fetchModels_with_effects)
qed

lemma submitQuery_no_timer_effects:
  assumes "submitQuery env s q = Inr effects"
  shows "\<not> list_ex isTimerEffect effects"
  using assms no_timer_effects(1,5)
  by (auto simp: submitQuery_def split: option.splits if_splits)

lemma pressedOnce_updates:
  "pressedOnce k (s\<lparr> timers := x \<rparr>) = pressedOnce k s"
  "pressedOnce k (s\<lparr> slashCommands := c \<rparr>) = pressedOnce k s"
  "pressedOnce k (s\<lparr> nextTimerId := n \<rparr>) = pressedOnce k s"
  "pressedOnce k (s\<lparr> clock := t \<rparr>) = pressedOnce k s"
  "pressedOnce k (s\<lparr> ctrlCTimerRef := r \<rparr>) = pressedOnce k s"
  "pressedOnce k (s\<lparr> ctrlDTimerRef := r \<rparr>) = pressedOnce k s"
  "pressedOnce k (s\<lparr> ctrlCPressedOnce := b \<rparr>) = (if k = CtrlC then b else pressedOnce k s)"
  "pressedOnce k (s\<lparr> ctrlDPressedOnce := b \<rparr>) = (if k = CtrlD then b else pressedOnce k s)"
  by (cases k; simp add: pressedOnce_def)+

lemma handleExit_wf:
  assumes "timersWellFormed s" and "pressedOnce k s = p"
  shows "timersWellFormed (run (handleExit p k r) s)"
proof (cases p)
  case True
  have "timersWellFormed (s\<lparr> timers := filter P (timers s), slashCommands := c \<rparr>)" for P c
    using assms(1)
    by (auto simp: timersWellFormed_def list_all_iff pressedOnce_updates distinct_map_filter)
  moreover have "timersWellFormed (s\<lparr> slashCommands := c \<rparr>)" for c
    using assms(1) by (simp add: timersWellFormed_def pressedOnce_updates)
  ultimately show ?thesis
    using True by (cases r) (simp_all add: handleExit_def run_Cons run_Nil)
next
  case False
  with assms(2) have np: "\<not> pressedOnce k s" by simp
  from assms(1) have all: "\<forall>tm\<in>set (timers s). fst tm < nextTimerId s \<and> pressedOnce (snd (snd tm)) s"
    and d1: "distinct (map fst (timers s))" and d2: "distinct (map (\<lambda>tm. snd (snd tm)) (timers s))"
    by (simp_all add: timersWellFormed_def list_all_iff)
  from all np have nk: "k \<notin> (\<lambda>tm. snd (snd tm)) ` set (timers s)" by auto
  from all have ni: "nextTimerId s \<notin> fst ` set (timers s)" by auto
  show ?thesis
    using False all d1 d2 nk ni
    by (cases k)
       (auto simp: handleExit_def run_Cons run_Nil timersWellFormed_def list_all_iff
          pressedOnce_updates)
qed

lemma fireTimer_wf:
  assumes "timersWellFormed s" and "tm \<in> set (timers s)"
  shows "timersWellFormed (fireTimer tm s)"
proof -
  obtain i d k where tm: "tm = (i, d, k)" by (cases tm) auto
  from assms(1) have all: "\<forall>u\<in>set (timers s). fst u < nextTimerId s \<and> pressedOnce (snd (snd u)) s"
    and d1: "distinct (map fst (timers s))" and d2: "distinct (map (\<lambda>u. snd (snd u)) (timers s))"
    by (simp_all add: timersWellFormed_def list_all_iff)
  have other: "snd (snd u) \<noteq> k" if "u \<in> set (timers s)" "fst u \<noteq> i" for u
  proof
    assume "snd (snd u) = k"
    with d2 that(1) assms(2) tm have "u = tm"
      by (auto simp: distinct_map inj_on_def)
    with that(2) tm show False by simp
  qed
  have t: "timers (fireTimer (i, d, k) s) = filter (\<lambda>u. fst u \<noteq> i) (timers s)"
    and n: "nextTimerId (fireTimer (i, d, k) s) = nextTimerId s"
    and p: "\<And>k'. pressedOnce k' (fireTimer (i, d, k) s)
              = (if k' = k then False else pressedOnce k' s)"
    by (cases k; simp add: fireTimer_def exitTimerCallback_def run_Cons run_Nil
          pressedOnce_updates)+
  show ?thesis
    using all d1 d2 other
    by (auto simp: tm timersWellFormed_def list_all_iff t n p distinct_map_filter)
qed

lemma fireTimer_timers:
  "timers (fireTimer tm s) = filter (\<lambda>u. fst u \<noteq> fst tm) (timers s)"
proof -
  obtain i d k where tm: "tm = (i, d, k)" by (cases tm) auto
  show ?thesis
    by (cases k; simp add: tm fireTimer_def exitTimerCallback_def run_Cons run_Nil)
qed

lemma fold_fire_wf:
  assumes "timersWellFormed s" and "set tms \<subseteq> set (timers s)" and "distinct tms"
  shows "timersWellFormed (foldl (\<lambda>st tm. fireTimer tm st) s tms)"
  using assms
proof (induction tms arbitrary: s)
  case Nil
  then show ?case by simp
next
  case (Cons tm tms)
  from Cons.prems have in_s: "tm \<in> set (timers s)" and rest: "set tms \<subseteq> set (timers s)"
    and nt: "tm \<notin> set tms" and dt: "distinct tms"
    by simp_all
  from Cons.prems(1) have d1: "distinct (map fst (timers s))"
    by (simp add: timersWellFormed_def)
  have "set tms \<subseteq> set (timers (fireTimer tm s))"
  proof
    fix u assume u: "u \<in> set tms"
    with rest have us: "u \<in> set (timers s)" by auto
    from u nt have "u \<noteq> tm" by auto
    with d1 us in_s have "fst u \<noteq> fst tm"
      by (auto simp: distinct_map inj_on_def)
    with us show "u \<in> set (timers (fireTimer tm s))"
      by (simp add: fireTimer_timers)
  qed
  from Cons.IH [OF fireTimer_wf [OF Cons.prems(1) in_s] this dt] show ?case by simp
qed

lemma wf_clock: "timersWellFormed (s\<lparr> clock := t \<rparr>) = timersWellFormed s"
  by (simp add: timersWellFormed_def pressedOnce_updates)

lemma advanceTo_wf:
  assumes "timersWellFormed s"
  shows "timersWellFormed (advanceTo t s)"
proof -
  from assms have "distinct (map fst (timers s))" by (simp add: timersWellFormed_def)
  then have "distinct (timers s)" by (simp add: distinct_map)
  then have "distinct (filter (\<lambda>tm. fst (snd tm) \<le> t) (timers s))" by simp
  from fold_fire_wf [OF assms _ this] show ?thesis
    by (simp add: advanceTo_def wf_clock)
qed

lemma globalInput_wf:
  assumes "timersWellFormed s1" and "pressedOnce CtrlC s1 = ctrlCPressedOnce s"
  shows "timersWellFormed (run (globalInput s input key) s1)"
proof (cases "ctrl key \<and> (input = js ''c'' \<or> input = js ''C'')")
  case True
  from handleExit_wf [OF assms(1), of CtrlC "ctrlCPressedOnce s" "ctrlCTimerRef s"] assms(2) True
  show ?thesis by (simp add: globalInput_def)
next
  case False
  then have "\<not> list_ex isTimerEffect (globalInput s input key)"
    by (auto simp: globalInput_def Let_def)
  from wf_frame_run [OF this] assms(1) show ?thesis by simp
qed

lemma step_wf:
  assumes "timersWellFormed s"
  shows "timersWellFormed (step env e s)"
proof (cases "handleEvent env s e")
  case (Inl f)
  then show ?thesis using assms by (simp add: step_def)
next
  case (Inr effects)
  show ?thesis
  proof (cases e)
    case (Submit v)
    have "\<not> list_ex isTimerEffect effects"
      using Inr Submit submitQuery_no_timer_effects [of env s "trim v" effects]
      by (auto simp: handleEvent_def handleFinalSubmit_def Let_def split: if_splits)
    from wf_frame_run [OF this] assms Inr show ?thesis by (simp add: step_def)
  next
    case (KeyPress input key)
    let ?s1 = "run (approvalInput (approvalRequest s) input key) s"
    have w1: "timersWellFormed ?s1"
      using wf_frame_run [OF no_timer_effects(4)] assms by simp
    have p1: "pressedOnce CtrlC ?s1 = ctrlCPressedOnce s"
      using timer_frame_run [OF no_timer_effects(4), where k = CtrlC and s = s]
      by (simp add: pressedOnce_def)
    have eff: "effects = approvalInput (approvalRequest s) input key @ globalInput s input key"
      using Inr KeyPress by (simp add: handleEvent_def)
    show ?thesis
      by (simp add: step_def Inr eff run_append globalInput_wf [OF w1 p1])
  next
    case (ModelsSettled converted response)
    have eff: "effects = fetchModels converted response"
      using Inr ModelsSettled by (simp add: handleEvent_def)
    show ?thesis
      using assms by (simp add: step_def Inr eff wf_frame_run [OF no_timer_effects(3)])
  next
    case (ChatSettled outcome)
    have eff: "effects = sendQueryToModel_finish outcome"
      using Inr ChatSettled by (simp add: handleEvent_def)
    show ?thesis
      using assms by (simp add: step_def Inr eff wf_frame_run [OF no_timer_effects(2)])
  qed
qed

lemma pressExitKey_handleExit:
  "pressExitKey k s = handleExit (pressedOnce k s) k (timerRef k s)"
  by (cases k) (simp_all add: pressExitKey_def pressedOnce_def timerRef_def)

lemma reachable_wf: "reachable s \<Longrightarrow> timersWellFormed s"
proof (induction rule: reachable.induct)
  case initial
  then show ?case by (simp add: timersWellFormed_def initialState_def)
next
  case (event s env e)
  then show ?case by (simp add: step_wf)
next
  case (exitKey s k)
  then show ?case by (simp add: pressExitKey_handleExit handleExit_wf)
next
  case (time s t)
  then show ?case by (simp add: advanceTo_wf)
qed

lemma reachable_awaitingFirst:
  assumes "reachable s" and "\<not> pressedOnce k s"
  shows "awaitingFirst k s"
  using reachable_wf [OF assms(1)] assms(2)
  by (auto simp: timersWellFormed_def awaitingFirst_def noTimerFor_def list_all_iff)

subsection \<open>Dispatch and the streaming state\<close>

text \<open>
  C6. Every dispatch call, in both implementations and however the request settles
  (a reply, a status that is not a success, a malformed body, a rejected or aborted
  \<open>fetch\<close>), resolves, so no failure escapes it, and when it has resolved the
  streaming state is Idle. With a model selected this holds from any state. A call
  rejected for the missing model leaves the streaming state as it was when the call
  was made, and that is Idle: in every state the session can reach, an event whose
  effects include a dispatch call (its error entry for the missing model, or its
  switch to Responding) is handled in a state that is Idle. The event that settles a
  request always leaves the state Idle.
\<close>

theorem dispatch_ends_idle:
  "(streamingState s = Idle \<or> \<not> falsyModel model
      \<longrightarrow> (\<exists>effects. sendQueryToModel model hist promptToSend originalPrompt outcome = Inr effects
                \<and> streamingState (run effects s) = Idle)
        \<and> (\<exists>effects. submitQuery_tsx model promptToSend outcome = Inr effects
                \<and> streamingState (run effects s) = Idle))
   \<and> (reachable s' \<and> handleEvent env s' e = Inr called
        \<and> (noModelSelected \<in> set called \<or> SetStreamingState Responding \<in> set called)
      \<longrightarrow> streamingState s' = Idle)
   \<and> streamingState (step env (ChatSettled outcome) s') = Idle"
proof -
  have call: "(\<exists>effects. sendQueryToModel model hist promptToSend originalPrompt outcome = Inr effects
                \<and> streamingState (run effects s) = Idle)
        \<and> (\<exists>effects. submitQuery_tsx model promptToSend outcome = Inr effects
                \<and> streamingState (run effects s) = Idle)"
    if pre: "streamingState s = Idle \<or> \<not> falsyModel model"
  proof (cases "falsyModel model")
    case True
    with pre have idle: "streamingState s = Idle" by simp
    show ?thesis
      using True idle
      by (simp add: sendQueryToModel_def submitQuery_tsx_def sendQueryToModel_start_def
            submitQuery_tsx_start_def noModelSelected_def run_Cons run_Nil)
  next
    case False
    then show ?thesis
      by (simp add: sendQueryToModel_def submitQuery_tsx_def run_append
            streamingState_run_finish)
  qed
  have settle: "streamingState (step env (ChatSettled outcome) s') = Idle"
    by (simp add: step_def handleEvent_def streamingState_run_finish)
  show ?thesis
    using call settle dispatch_from_idle [of s' env e called] by blast
qed

text \<open>
  Witness for C6, from the initial state, for each path: a reply, a status that is not
  2xx, a body without \<open>choices\<close>, a rejected or aborted \<open>fetch\<close>, and no model; the
  submit of \<open>hi\<close> in the initial state is an event that calls the dispatch.
\<close>

theorem dispatch_ends_idle_witness:
  "(streamingState initialState = Idle \<or> \<not> falsyModel JNull)
   \<and> (\<exists>effects. sendQueryToModel (JStr (js ''m'')) [] (js ''hi'') (js ''hi'')
          (HttpOk (Inr (JObj [(js ''choices'',
             JArr [JObj [(js ''message'', JObj [(js ''content'', JStr (js ''ok''))])]])])))
          = Inr effects \<and> streamingState (run effects initialState) = Idle)
   \<and> (\<exists>effects. sendQueryToModel (JStr (js ''m'')) [] (js ''hi'') (js ''hi'')
          (HttpNotOk 500 (Inr (js ''boom''))) = Inr effects
          \<and> streamingState (run effects initialState) = Idle)
   \<and> (\<exists>effects. submitQuery_tsx (JStr (js ''m'')) (js ''hi'') (HttpOk (Inr (JObj [])))
          = Inr effects \<and> streamingState (run effects initialState) = Idle)
   \<and> (\<exists>effects. sendQueryToModel (JStr (js ''m'')) [] (js ''hi'') (js ''hi'')
          (FetchRejected (js ''This operation was aborted'')) = Inr effects
          \<and> streamingState (run effects initialState) = Idle)
   \<and> (\<exists>effects. sendQueryToModel JNull [] (js ''hi'') (js ''hi'')
          (FetchRejected (js ''unused'')) = Inr effects
          \<and> streamingState (run effects initialState) = Idle)
   \<and> reachable initialState
   \<and> handleEvent \<lparr> cwd = js ''/w'', cwdEntries = Some [] \<rparr> initialState (Submit (js ''hi''))
       = Inr [noModelSelected]
   \<and> streamingState initialState = Idle"
proof -
  have idle: "streamingState initialState = Idle"
    by (simp add: initialState_def)
  have sub: "handleEvent \<lparr> cwd = js ''/w'', cwdEntries = Some [] \<rparr> initialState
      (Submit (js ''hi'')) = Inr [noModelSelected]"
    by (simp add: handleEvent_def handleFinalSubmit_def isInputActive_def initialState_def
          trim_def submitQuery_def sendQueryToModel_start_def js_def isWhiteSpace_def
          matchAt_def isNameChar_def isWordChar_def falsyModel_def)
  note d = dispatch_ends_idle [where s = initialState and hist = "[]"
      and promptToSend = "js ''hi''" and originalPrompt = "js ''hi''" and s' = initialState
      and env = "\<lparr> cwd = js ''/w'', cwdEntries = Some [] \<rparr>" and e = "Submit (js ''hi'')"
      and called = "[noModelSelected]"]
  show ?thesis
    using idle sub reachable.initial
      d [where model = "JStr (js ''m'')" and outcome = "HttpOk (Inr (JObj [(js ''choices'',
             JArr [JObj [(js ''message'', JObj [(js ''content'', JStr (js ''ok''))])]])]))"]
      d [where model = "JStr (js ''m'')" and outcome = "HttpNotOk 500 (Inr (js ''boom''))"]
      d [where model = "JStr (js ''m'')" and outcome = "HttpOk (Inr (JObj []))"]
      d [where model = "JStr (js ''m'')"
          and outcome = "FetchRejected (js ''This operation was aborted'')"]
      d [where model = JNull and outcome = "FetchRejected (js ''unused'')"]
    by blast
qed

subsection \<open>The history that a dispatch consults\<close>











section \<open>Properties of the exit confirmation\<close>

text \<open>
  What a timeout does when it runs, what the passing of time does to a key that waits
  for its first press and to one that is armed, and what a press does in either state.
\<close>

lemma fireTimer_same:
  "pressedOnce k (fireTimer (i, d, k) s) = False"
  "timerRef k (fireTimer (i, d, k) s) = None"
  by (cases k; simp add: fireTimer_def exitTimerCallback_def run_Cons run_Nil pressedOnce_def timerRef_def)+

lemma fireTimer_other:
  "k' \<noteq> k \<Longrightarrow> pressedOnce k (fireTimer (i, d, k') s) = pressedOnce k s"
  "k' \<noteq> k \<Longrightarrow> timerRef k (fireTimer (i, d, k') s) = timerRef k s"
  by (cases k; cases k'; simp add: fireTimer_def exitTimerCallback_def run_Cons run_Nil pressedOnce_def timerRef_def)+

lemma fireTimer_frame:
  "slashCommands (fireTimer (i, d, k') s) = slashCommands s"
  "nextTimerId (fireTimer (i, d, k') s) = nextTimerId s"
  "timers (fireTimer (i, d, k') s) = filter (\<lambda>u. fst u \<noteq> i) (timers s)"
  by (cases k'; simp add: fireTimer_def exitTimerCallback_def run_Cons run_Nil)+

lemma fire_others:
  assumes "list_all (\<lambda>tm. snd (snd tm) \<noteq> k) tms"
  shows "pressedOnce k (foldl (\<lambda>st tm. fireTimer tm st) s tms) = pressedOnce k s
       \<and> timerRef k (foldl (\<lambda>st tm. fireTimer tm st) s tms) = timerRef k s
       \<and> slashCommands (foldl (\<lambda>st tm. fireTimer tm st) s tms) = slashCommands s
       \<and> nextTimerId (foldl (\<lambda>st tm. fireTimer tm st) s tms) = nextTimerId s
       \<and> timers (foldl (\<lambda>st tm. fireTimer tm st) s tms)
           = filter (\<lambda>u. fst u \<notin> fst ` set tms) (timers s)"
  using assms
proof (induction tms arbitrary: s)
  case Nil
  then show ?case by simp
next
  case (Cons tm tms)
  obtain i d k' where tm: "tm = (i, d, k')" by (cases tm) auto
  from Cons.prems tm have k': "k' \<noteq> k" and rest: "list_all (\<lambda>tm. snd (snd tm) \<noteq> k) tms"
    by simp_all
  show ?case
    using Cons.IH [OF rest, of "fireTimer (i, d, k') s"] k'
    by (simp add: tm fireTimer_other fireTimer_frame)
qed

lemma advanceTo_fields:
  "clock (advanceTo t s) = t"
  "timers (advanceTo t s)
     = timers (foldl (\<lambda>st tm. fireTimer tm st) s (filter (\<lambda>tm. fst (snd tm) \<le> t) (timers s)))"
  "slashCommands (advanceTo t s)
     = slashCommands (foldl (\<lambda>st tm. fireTimer tm st) s (filter (\<lambda>tm. fst (snd tm) \<le> t) (timers s)))"
  "nextTimerId (advanceTo t s)
     = nextTimerId (foldl (\<lambda>st tm. fireTimer tm st) s (filter (\<lambda>tm. fst (snd tm) \<le> t) (timers s)))"
  "pressedOnce k (advanceTo t s)
     = pressedOnce k (foldl (\<lambda>st tm. fireTimer tm st) s (filter (\<lambda>tm. fst (snd tm) \<le> t) (timers s)))"
  "timerRef k (advanceTo t s)
     = timerRef k (foldl (\<lambda>st tm. fireTimer tm st) s (filter (\<lambda>tm. fst (snd tm) \<le> t) (timers s)))"
  by (simp_all add: advanceTo_def pressedOnce_def timerRef_def split: exit_key.splits)

lemma advance_awaiting:
  assumes "awaitingFirst k s"
  shows "awaitingFirst k (advanceTo t s) \<and> slashCommands (advanceTo t s) = slashCommands s
       \<and> clock (advanceTo t s) = t"
proof -
  let ?due = "filter (\<lambda>tm. fst (snd tm) \<le> t) (timers s)"
  from assms have "list_all (\<lambda>tm. snd (snd tm) \<noteq> k) ?due"
    by (simp add: awaitingFirst_def noTimerFor_def list_all_iff)
  from fire_others [OF this, of s] assms show ?thesis
    by (simp add: advanceTo_fields awaitingFirst_def noTimerFor_def list_all_iff)
qed

lemma first_press:
  assumes "awaitingFirst k s"
  shows "armed k (nextTimerId s) (clock s + 1000) (run (pressExitKey k s) s)
       \<and> slashCommands (run (pressExitKey k s) s) = slashCommands s"
  using assms
  by (cases k)
     (auto simp: awaitingFirst_def armed_def noTimerFor_def pressExitKey_def handleExit_def
        pressedOnce_def timerRef_def run_Cons run_Nil CTRL_EXIT_PROMPT_DURATION_MS_def list_all_iff)

lemma advance_armed_early:
  assumes "armed k h due s" and "t < due"
  shows "armed k h due (advanceTo t s) \<and> slashCommands (advanceTo t s) = slashCommands s"
proof -
  from assms(1) obtain others where tm: "timers s = others @ [(h, due, k)]"
    and ot: "list_all (\<lambda>tm. snd (snd tm) \<noteq> k \<and> fst tm < h) others"
    by (auto simp: armed_def)
  let ?due = "filter (\<lambda>tm. fst (snd tm) \<le> t) (timers s)"
  have due: "?due = filter (\<lambda>tm. fst (snd tm) \<le> t) others"
    using assms(2) by (simp add: tm)
  have "list_all (\<lambda>tm. snd (snd tm) \<noteq> k) ?due"
    using ot by (simp add: due list_all_iff)
  from fire_others [OF this, of s]
  have f: "pressedOnce k (advanceTo t s) = pressedOnce k s"
    "timerRef k (advanceTo t s) = timerRef k s"
    "slashCommands (advanceTo t s) = slashCommands s"
    "nextTimerId (advanceTo t s) = nextTimerId s"
    "timers (advanceTo t s) = filter (\<lambda>u. fst u \<notin> fst ` set ?due) (timers s)"
    by (simp_all add: advanceTo_fields)
  have keep: "fst (h, due, k) \<notin> fst ` set ?due"
    using ot by (auto simp: due list_all_iff)
  have "timers (advanceTo t s)
      = filter (\<lambda>u. fst u \<notin> fst ` set ?due) others @ [(h, due, k)]"
    using keep by (simp add: f tm)
  moreover have "list_all (\<lambda>tm. snd (snd tm) \<noteq> k \<and> fst tm < h)
      (filter (\<lambda>u. fst u \<notin> fst ` set ?due) others)"
    using ot by (simp add: list_all_iff)
  ultimately show ?thesis
    using assms(1) f by (auto simp: armed_def)
qed

lemma advance_armed_late:
  assumes "armed k h due s" and "due \<le> t"
  shows "awaitingFirst k (advanceTo t s) \<and> timerRef k (advanceTo t s) = None
       \<and> slashCommands (advanceTo t s) = slashCommands s"
proof -
  from assms(1) obtain others where tm: "timers s = others @ [(h, due, k)]"
    and ot: "list_all (\<lambda>tm. snd (snd tm) \<noteq> k \<and> fst tm < h) others"
    and nx: "nextTimerId s = Suc h"
    by (auto simp: armed_def)
  let ?od = "filter (\<lambda>tm. fst (snd tm) \<le> t) others"
  let ?mid = "foldl (\<lambda>st tm. fireTimer tm st) s ?od"
  have due: "filter (\<lambda>tm. fst (snd tm) \<le> t) (timers s) = ?od @ [(h, due, k)]"
    using assms(2) by (simp add: tm)
  have "list_all (\<lambda>tm. snd (snd tm) \<noteq> k) ?od"
    using ot by (simp add: list_all_iff)
  from fire_others [OF this, of s]
  have m: "slashCommands ?mid = slashCommands s" "nextTimerId ?mid = nextTimerId s"
    "timers ?mid = filter (\<lambda>u. fst u \<notin> fst ` set ?od) (timers s)"
    by simp_all
  have fin: "foldl (\<lambda>st tm. fireTimer tm st) s (filter (\<lambda>tm. fst (snd tm) \<le> t) (timers s))
      = fireTimer (h, due, k) ?mid"
    by (simp add: due)
  have t': "timers (fireTimer (h, due, k) ?mid)
      = filter (\<lambda>u. fst u \<noteq> h) (filter (\<lambda>u. fst u \<notin> fst ` set ?od) others)"
    by (simp add: fireTimer_frame m tm)
  have rest_k: "list_all (\<lambda>tm. snd (snd tm) \<noteq> k)
      (filter (\<lambda>u. fst u \<noteq> h) (filter (\<lambda>u. fst u \<notin> fst ` set ?od) others))"
    using ot by (auto simp: list_all_iff)
  have rest_h: "list_all (\<lambda>tm. fst tm < Suc h)
      (filter (\<lambda>u. fst u \<noteq> h) (filter (\<lambda>u. fst u \<notin> fst ` set ?od) others))"
    using ot by (auto simp: list_all_iff)
  have "noTimerFor k (advanceTo t s)"
    using rest_k by (simp add: noTimerFor_def advanceTo_fields(2) fin t')
  moreover have "list_all (\<lambda>tm. fst tm < nextTimerId (advanceTo t s)) (timers (advanceTo t s))"
    using rest_h nx
    by (simp add: advanceTo_fields(2,4) fin t' fireTimer_frame(2) m(2))
  moreover have "\<not> pressedOnce k (advanceTo t s)" "timerRef k (advanceTo t s) = None"
    by (simp_all add: advanceTo_fields(5,6) fin fireTimer_same)
  moreover have "slashCommands (advanceTo t s) = slashCommands s"
    by (simp add: advanceTo_fields(3) fin fireTimer_frame(1) m(1))
  ultimately show ?thesis
    by (simp add: awaitingFirst_def)
qed

lemma second_press:
  assumes "armed k h due s"
  shows "slashCommands (run (pressExitKey k s) s) = slashCommands s @ [js ''/quit'']
       \<and> noTimerFor k (run (pressExitKey k s) s)"
proof -
  from assms obtain others where tm: "timers s = others @ [(h, due, k)]"
    and ot: "list_all (\<lambda>tm. snd (snd tm) \<noteq> k \<and> fst tm < h) others"
    and pr: "pressedOnce k s" and rf: "timerRef k s = Some h"
    by (auto simp: armed_def)
  have eff: "pressExitKey k s = [ClearTimeout h, HandleSlashCommand (js ''/quit'')]"
    using pr rf by (cases k) (simp_all add: pressExitKey_def handleExit_def pressedOnce_def timerRef_def)
  have "list_all (\<lambda>tm. snd (snd tm) \<noteq> k) (filter (\<lambda>t. fst t \<noteq> h) others)"
    using ot by (auto simp: list_all_iff)
  then show ?thesis
    by (simp add: eff run_Cons run_Nil noTimerFor_def tm)
qed

text \<open>
  C5. For each exit key \<open>k\<close>, from any state the session can reach in which the key
  is not pressed:
  \<^item> a first signal at time \<open>t1\<close> sets \<open>pressedOnce\<close>, sets a timeout due 1000 ms later
    and does not terminate the session;
  \<^item> however long the session then waits without a second signal, it is not
    terminated; until the timeout is due \<open>pressedOnce\<close> stays set, and once it is due
    \<open>pressedOnce\<close> is false again and the timer reference is cleared;
  \<^item> a second signal before the timeout is due cancels the timeout and hands
    \<open>/quit\<close> to the command handler;
  \<^item> a second signal more than 1000 ms after the first behaves as a first signal:
    \<open>pressedOnce\<close> is set, a new timeout is due 1000 ms after it, and the session is
    not terminated.
\<close>

theorem exit_debounce:
  assumes "reachable s" and "\<not> pressedOnce k s"
  shows "pressedOnce k (signalAt t1 k s)
       \<and> (\<exists>h. timerRef k (signalAt t1 k s) = Some h
              \<and> (h, t1 + CTRL_EXIT_PROMPT_DURATION_MS, k) \<in> set (timers (signalAt t1 k s)))
       \<and> slashCommands (signalAt t1 k s) = slashCommands s
       \<and> slashCommands (advanceTo t (signalAt t1 k s)) = slashCommands s
       \<and> (t < t1 + CTRL_EXIT_PROMPT_DURATION_MS
            \<longrightarrow> pressedOnce k (advanceTo t (signalAt t1 k s)))
       \<and> (t1 + CTRL_EXIT_PROMPT_DURATION_MS \<le> t
            \<longrightarrow> \<not> pressedOnce k (advanceTo t (signalAt t1 k s))
              \<and> timerRef k (advanceTo t (signalAt t1 k s)) = None
              \<and> noTimerFor k (advanceTo t (signalAt t1 k s)))
       \<and> (t2 < t1 + CTRL_EXIT_PROMPT_DURATION_MS
            \<longrightarrow> slashCommands (signalAt t2 k (signalAt t1 k s))
                  = slashCommands s @ [js ''/quit'']
              \<and> noTimerFor k (signalAt t2 k (signalAt t1 k s)))
       \<and> (t1 + CTRL_EXIT_PROMPT_DURATION_MS < t2
            \<longrightarrow> pressedOnce k (signalAt t2 k (signalAt t1 k s))
              \<and> slashCommands (signalAt t2 k (signalAt t1 k s)) = slashCommands s
              \<and> (\<exists>h. timerRef k (signalAt t2 k (signalAt t1 k s)) = Some h
                     \<and> (h, t2 + CTRL_EXIT_PROMPT_DURATION_MS, k)
                         \<in> set (timers (signalAt t2 k (signalAt t1 k s)))))"
proof -
  let ?s0 = "advanceTo t1 s"
  let ?s1 = "signalAt t1 k s"
  let ?due = "t1 + 1000"
  have start: "awaitingFirst k s"
    using assms by (rule reachable_awaitingFirst)
  from advance_awaiting [OF start, of t1]
  have a0: "awaitingFirst k ?s0" and c0: "slashCommands ?s0 = slashCommands s"
    and k0: "clock ?s0 = t1"
    by simp_all
  have s1: "?s1 = run (pressExitKey k ?s0) ?s0"
    by (simp add: signalAt_def Let_def)
  from first_press [OF a0]
  have arm: "armed k (nextTimerId ?s0) ?due ?s1" and c1: "slashCommands ?s1 = slashCommands s"
    by (simp_all add: s1 k0 c0)
  have p1: "pressedOnce k ?s1"
    and r1: "\<exists>h. timerRef k ?s1 = Some h \<and> (h, ?due, k) \<in> set (timers ?s1)"
    using arm by (auto simp: armed_def)
  have wait: "slashCommands (advanceTo t ?s1) = slashCommands s"
  proof (cases "t < ?due")
    case True
    from advance_armed_early [OF arm True] c1 show ?thesis by simp
  next
    case False
    then have "?due \<le> t" by simp
    from advance_armed_late [OF arm this] c1 show ?thesis by simp
  qed
  have early: "pressedOnce k (advanceTo t ?s1)" if "t < ?due"
    using advance_armed_early [OF arm that] by (simp add: armed_def)
  have late: "\<not> pressedOnce k (advanceTo t ?s1) \<and> timerRef k (advanceTo t ?s1) = None
      \<and> noTimerFor k (advanceTo t ?s1)" if "?due \<le> t"
    using advance_armed_late [OF arm that] by (simp add: awaitingFirst_def)
  have second: "slashCommands (signalAt t2 k ?s1) = slashCommands s @ [js ''/quit'']
      \<and> noTimerFor k (signalAt t2 k ?s1)" if "t2 < ?due"
  proof -
    from advance_armed_early [OF arm that]
    have a2: "armed k (nextTimerId ?s0) ?due (advanceTo t2 ?s1)"
      and c2: "slashCommands (advanceTo t2 ?s1) = slashCommands ?s1"
      by simp_all
    from second_press [OF a2] c2 c1 show ?thesis
      by (simp add: signalAt_def Let_def)
  qed
  have again: "pressedOnce k (signalAt t2 k ?s1)
      \<and> slashCommands (signalAt t2 k ?s1) = slashCommands s
      \<and> (\<exists>h. timerRef k (signalAt t2 k ?s1) = Some h
             \<and> (h, t2 + 1000, k) \<in> set (timers (signalAt t2 k ?s1)))" if "?due < t2"
  proof -
    from that have "?due \<le> t2" by simp
    from advance_armed_late [OF arm this]
    have a2: "awaitingFirst k (advanceTo t2 ?s1)"
      and c2: "slashCommands (advanceTo t2 ?s1) = slashCommands ?s1"
      by simp_all
    have k2: "clock (advanceTo t2 ?s1) = t2"
      by (simp add: advanceTo_fields)
    from first_press [OF a2] c2 c1 k2 show ?thesis
      by (auto simp: signalAt_def Let_def armed_def)
  qed
  show ?thesis
    using p1 r1 c1 wait early late second again
    by (simp add: CTRL_EXIT_PROMPT_DURATION_MS_def)
qed

text \<open>
  Witness for C5: Ctrl+C from the initial state. One press at 5 ms and a wait until
  2000 ms leave the session running and the key unpressed; a second press at 500 ms
  quits; a second press at 3000 ms only arms the key again.
\<close>

theorem exit_debounce_witness:
  "reachable initialState \<and> \<not> pressedOnce CtrlC initialState
   \<and> pressedOnce CtrlC (signalAt 5 CtrlC initialState)
   \<and> slashCommands (advanceTo 2000 (signalAt 5 CtrlC initialState)) = []
   \<and> \<not> pressedOnce CtrlC (advanceTo 2000 (signalAt 5 CtrlC initialState))
   \<and> slashCommands (signalAt 500 CtrlC (signalAt 5 CtrlC initialState)) = [js ''/quit'']
   \<and> pressedOnce CtrlC (signalAt 3000 CtrlC (signalAt 5 CtrlC initialState))
   \<and> slashCommands (signalAt 3000 CtrlC (signalAt 5 CtrlC initialState)) = []"
proof -
  have a: "\<not> pressedOnce CtrlC initialState"
    by (simp add: pressedOnce_def initialState_def)
  have c: "slashCommands initialState = []"
    by (simp add: initialState_def)
  from exit_debounce [OF reachable.initial a, of 5 2000 500]
    exit_debounce [OF reachable.initial a, of 5 2000 3000] a c reachable.initial
  show ?thesis
    by (simp add: CTRL_EXIT_PROMPT_DURATION_MS_def)
qed

end
